theory Spec2Isabelle
  imports Main "HOL-Library.Word" "HOL-Library.Sublist"
begin

unbundle bit_operations_syntax

section \<open>Common machine types\<close>

type_synonym u8 = "8 word"
type_synonym u16 = "16 word"
type_synonym u32 = "32 word"
type_synonym u64 = "64 word"

text \<open>A C \<^verbatim>\<open>int\<close>: 32 bits, read as two's complement by \<open>sint\<close>.\<close>

type_synonym i32 = "32 word"

text \<open>
  A call either comes back to its caller with a value, or ends in
  \<^verbatim>\<open>kernel_panic\<close>, which prints its message, disables interrupts and
  halts the CPU in an endless \<^verbatim>\<open>cli; hlt\<close> loop: the caller never runs again.
\<close>

datatype 'a outcome = Returns 'a | Panic string

section \<open>Kernel heap (src/kernel/mm/memory.c)\<close>

definition KERNEL_HEAP_START :: u64 where
  "KERNEL_HEAP_START = 0xFFFFFFFF90000000"

definition KERNEL_HEAP_SIZE :: u64 where
  "KERNEL_HEAP_SIZE = 0x10000000"

text \<open>\<^verbatim>\<open>sizeof(early_heap)\<close>: the early heap is a static array of 1 MiB.\<close>

definition EARLY_HEAP_BYTES :: u64 where
  "EARLY_HEAP_BYTES = 1024 * 1024"

text \<open>
  The allocator's globals that \<^verbatim>\<open>kmalloc\<close> touches: three fields of
  \<^verbatim>\<open>mm_state\<close> and the static \<^verbatim>\<open>early_heap_offset\<close>.
\<close>

record heap_state =
  kernel_heap_ptr :: u64
  used_memory :: u64
  initialized :: bool
  early_heap_offset :: u64

text \<open>
  A returned pointer is either the address of a byte of the static early heap
  (given by its index) or a raw 64-bit address taken from the bump cursor.
\<close>

datatype heap_ptr = EarlyHeap u64 | Addr u64

text \<open>\<^verbatim>\<open>size = (size + 7) & ~7\<close> on a 64-bit \<^verbatim>\<open>size_t\<close>.\<close>

definition align8 :: "u64 \<Rightarrow> u64" where
  "align8 sz = (sz + 7) AND NOT 7"

definition early_kmalloc :: "heap_state \<Rightarrow> u64 \<Rightarrow> (heap_ptr \<times> heap_state) outcome" where
  "early_kmalloc m sz =
     (let sz = align8 sz in
      if early_heap_offset m + sz > EARLY_HEAP_BYTES then Panic ''Early heap exhausted''
      else Returns (EarlyHeap (early_heap_offset m),
                    m\<lparr>early_heap_offset := early_heap_offset m + sz\<rparr>))"

definition kmalloc :: "heap_state \<Rightarrow> u64 \<Rightarrow> (heap_ptr \<times> heap_state) outcome" where
  "kmalloc m sz =
     (if \<not> initialized m then early_kmalloc m sz
      else
        let sz = align8 sz in
        if kernel_heap_ptr m + sz > KERNEL_HEAP_START + KERNEL_HEAP_SIZE
        then Panic ''Kernel heap exhausted''
        else Returns (Addr (kernel_heap_ptr m),
                      m\<lparr>kernel_heap_ptr := kernel_heap_ptr m + sz,
                        used_memory := used_memory m + sz\<rparr>))"

text \<open>
  The allocator's globals when the kernel is entered: they are objects of static
  storage, which start zeroed, and \<^verbatim>\<open>early_heap_offset\<close> is initialised to 0.
\<close>

definition heap_at_boot :: heap_state where
  "heap_at_boot =
     \<lparr>kernel_heap_ptr = 0, used_memory = 0, initialized = False, early_heap_offset = 0\<rparr>"

text \<open>
  \<^verbatim>\<open>mm_init\<close>, as far as the heap is concerned. It assumes 512 MiB of memory, sets
  the cursor and the counter, and asks \<^verbatim>\<open>early_kmalloc\<close> for the page array: one
  \<^verbatim>\<open>struct page\<close> (packed, 8 + 4 + 4 + 8 = 24 bytes) for each page of 4096 bytes.
  Only when that call has returned does it set \<^verbatim>\<open>initialized\<close>.
\<close>

definition PAGE_SHIFT :: nat where "PAGE_SHIFT = 12"

definition SIZEOF_PAGE :: u64 where "SIZEOF_PAGE = 24"

definition mm_init :: "heap_state \<Rightarrow> heap_state outcome" where
  "mm_init m =
     (let total_memory = 512 * 1024 * 1024 :: u64;
          m = m\<lparr>kernel_heap_ptr := KERNEL_HEAP_START, used_memory := 0\<rparr>;
          total_pages = drop_bit PAGE_SHIFT total_memory
      in case early_kmalloc m (total_pages * SIZEOF_PAGE) of
           Panic msg \<Rightarrow> Panic msg
         | Returns (page_array, m) \<Rightarrow> Returns (m\<lparr>initialized := True\<rparr>))"

section \<open>Kernel structures (src/kernel/include/system.h)\<close>

definition MAX_OPEN_FILES :: nat where
  "MAX_OPEN_FILES = 256"

datatype process_state_t =
  PROCESS_READY | PROCESS_RUNNING | PROCESS_BLOCKED | PROCESS_ZOMBIE | PROCESS_TERMINATED

text \<open>
  Pointers to heap structures are addresses; \<open>None\<close> is the null pointer.
\<close>

type_synonym proc_ref = nat
type_synonym inode_ref = nat

text \<open>
  \<^verbatim>\<open>struct process\<close>, with the fields the functions below read or write (the page
  directory, the stacks, the saved CPU context, the names and the accounting fields are
  left out).
\<close>

record process =
  pid :: u32
  ppid :: u32
  state :: process_state_t
  priority :: u32
  uid :: u32
  gid :: u32
  open_files :: "u32 list"
  "next" :: "proc_ref option"
  prev :: "proc_ref option"
  security_level :: u8

record file_descriptor =
  inode :: "inode_ref option"
  offset :: u64
  flags :: u32
  mode :: u32
  ref_count :: u32

section \<open>System calls (src/kernel/core/syscalls.c)\<close>

text \<open>
  The file-system back-end (\<^verbatim>\<open>fs_get_inode\<close>, \<^verbatim>\<open>fs_read_inode\<close>,
  \<^verbatim>\<open>fs_write_inode\<close>, \<^verbatim>\<open>fs_create_file\<close>) is only declared in system.h. It is a
  parameter here: each operation takes the back-end's state \<open>'fs\<close> and returns its C
  \<^verbatim>\<open>int\<close> result with the new state. A read also returns the bytes it put into the
  caller's buffer; a write receives the bytes of the caller's buffer.
\<close>

record 'fs fs_ops =
  fs_get_inode :: "'fs \<Rightarrow> u32 \<Rightarrow> inode_ref option \<times> 'fs"
  fs_read_inode :: "'fs \<Rightarrow> inode_ref \<Rightarrow> u64 \<Rightarrow> u64 \<Rightarrow> (i32 \<times> u8 list) \<times> 'fs"
  fs_write_inode :: "'fs \<Rightarrow> inode_ref \<Rightarrow> u64 \<Rightarrow> u8 list \<Rightarrow> i32 \<times> 'fs"
  fs_create_file :: "'fs \<Rightarrow> string \<Rightarrow> u32 \<Rightarrow> i32 \<times> 'fs"

text \<open>
  The globals of syscalls.c (\<^verbatim>\<open>current_process\<close>, \<^verbatim>\<open>file_table\<close>), the console that
  writes to descriptors 1 and 2 print on, and the back-end's state.
\<close>

record 'fs sys_state =
  current_process :: "process option"
  file_table :: "file_descriptor list"
  console :: "u8 list"
  fs :: 'fs

text \<open>Error numbers, as the handlers return them.\<close>

definition EPERM :: int where "EPERM = 1"
definition ENOENT :: int where "ENOENT = 2"
definition EBADF :: int where "EBADF = 9"
definition EFAULT :: int where "EFAULT = 14"
definition EMFILE :: int where "EMFILE = 24"

text \<open>
  \<^verbatim>\<open>sys_read(fd, buf, count)\<close>. The result is the \<^verbatim>\<open>long\<close> return value, the bytes
  stored through \<^verbatim>\<open>buf\<close>, and the new state. \<^verbatim>\<open>buf\<close> is a user address, 0 being
  \<^verbatim>\<open>NULL\<close>.
\<close>

definition sys_read ::
  "'fs fs_ops \<Rightarrow> 'fs sys_state \<Rightarrow> u64 \<Rightarrow> u64 \<Rightarrow> u64 \<Rightarrow> int \<times> u8 list \<times> 'fs sys_state" where
  "sys_read ops s fd buf count =
     (if unat fd \<ge> MAX_OPEN_FILES \<or> inode (file_table s ! unat fd) = None
      then (- EBADF, [], s)
      else if buf = 0 \<or> count = 0 then (- EFAULT, [], s)
      else
        let file = file_table s ! unat fd;
            ((bytes_read, data), fs') =
               fs_read_inode ops (fs s) (the (inode file)) (offset file) count;
            file' = (if sint bytes_read > 0
                     then file\<lparr>offset := offset file + word_of_int (sint bytes_read)\<rparr>
                     else file)
        in (sint bytes_read, data,
            s\<lparr>file_table := (file_table s)[unat fd := file'], fs := fs'\<rparr>))"

text \<open>
  \<^verbatim>\<open>sys_write(fd, buf, count)\<close>; \<open>umem\<close> is the caller's memory, read at
  \<^verbatim>\<open>buf[0..count-1]\<close>.
\<close>

definition user_bytes :: "(u64 \<Rightarrow> u8) \<Rightarrow> u64 \<Rightarrow> u64 \<Rightarrow> u8 list" where
  "user_bytes umem buf count = map (\<lambda>i. umem (buf + of_nat i)) [0..<unat count]"

definition sys_write ::
  "'fs fs_ops \<Rightarrow> (u64 \<Rightarrow> u8) \<Rightarrow> 'fs sys_state \<Rightarrow> u64 \<Rightarrow> u64 \<Rightarrow> u64 \<Rightarrow> int \<times> 'fs sys_state" where
  "sys_write ops umem s fd buf count =
     (if unat fd \<ge> MAX_OPEN_FILES then (- EBADF, s)
      else if buf = 0 \<or> count = 0 then (- EFAULT, s)
      else if fd = 1 \<or> fd = 2
      then (sint count, s\<lparr>console := console s @ user_bytes umem buf count\<rparr>)
      else if inode (file_table s ! unat fd) = None then (- EBADF, s)
      else
        let file = file_table s ! unat fd;
            (bytes_written, fs') =
               fs_write_inode ops (fs s) (the (inode file)) (offset file)
                 (user_bytes umem buf count);
            file' = (if sint bytes_written > 0
                     then file\<lparr>offset := offset file + word_of_int (sint bytes_written)\<rparr>
                     else file)
        in (sint bytes_written, s\<lparr>file_table := (file_table s)[unat fd := file'], fs := fs'\<rparr>))"

text \<open>
  The descriptor search of \<^verbatim>\<open>sys_open\<close>:
  \<^verbatim>\<open>for (int i = 3; i < MAX_OPEN_FILES; i++) if (file_table[i].inode == NULL) { fd = i; break; }\<close>
  \<open>None\<close> stands for \<^verbatim>\<open>fd == -1\<close>.
\<close>

function find_free_fd :: "file_descriptor list \<Rightarrow> nat \<Rightarrow> nat option" where
  "find_free_fd tbl i =
     (if i < MAX_OPEN_FILES
      then (if inode (tbl ! i) = None then Some i else find_free_fd tbl (i + 1))
      else None)"
  by pat_completeness auto
termination
  by (relation "measure (\<lambda>(tbl, i). MAX_OPEN_FILES - i)") auto

declare find_free_fd.simps [simp del]

text \<open>
  \<^verbatim>\<open>sys_open(filename, flags, mode)\<close>; \<open>filename\<close> is \<open>None\<close> for a null pointer and
  the path string otherwise.
\<close>

definition sys_open ::
  "'fs fs_ops \<Rightarrow> 'fs sys_state \<Rightarrow> string option \<Rightarrow> u64 \<Rightarrow> u64 \<Rightarrow> int \<times> 'fs sys_state" where
  "sys_open ops s filename flags' mode' =
     (case filename of
        None \<Rightarrow> (- EFAULT, s)
      | Some path \<Rightarrow>
          (case find_free_fd (file_table s) 3 of
             None \<Rightarrow> (- EMFILE, s)
           | Some fd \<Rightarrow>
               let (inode0, fs0) = fs_get_inode ops (fs s) 0;
                   (failed, inode1, fs1) =
                     (if inode0 = None
                      then (if flags' AND 0x40 \<noteq> 0
                            then (let (rc, fsc) = fs_create_file ops fs0 path (ucast mode')
                                  in if rc \<noteq> 0 then (True, None, fsc)
                                     else (let (i, fsg) = fs_get_inode ops fsc 0
                                           in (i = None, i, fsg)))
                            else (True, None, fs0))
                      else (False, inode0, fs0))
               in if failed then (- ENOENT, s\<lparr>fs := fs1\<rparr>)
                  else
                    (int fd,
                     s\<lparr>file_table := (file_table s)
                          [fd := \<lparr>inode = inode1, offset = 0, flags = ucast flags',
                                  mode = ucast mode', ref_count = 1\<rparr>],
                       current_process :=
                         map_option (\<lambda>p. p\<lparr>open_files := (open_files p)[fd := 1]\<rparr>)
                           (current_process s),
                       fs := fs1\<rparr>)))"

text \<open>\<^verbatim>\<open>sys_close(fd)\<close>.\<close>

definition sys_close :: "'fs sys_state \<Rightarrow> u64 \<Rightarrow> int \<times> 'fs sys_state" where
  "sys_close s fd =
     (if unat fd \<ge> MAX_OPEN_FILES \<or> inode (file_table s ! unat fd) = None
      then (- EBADF, s)
      else
        let file = file_table s ! unat fd;
            file1 = file\<lparr>ref_count := ref_count file - 1\<rparr>;
            file2 = (if ref_count file1 = 0
                     then file1\<lparr>inode := None, offset := 0, flags := 0, mode := 0\<rparr>
                     else file1)
        in (0, s\<lparr>file_table := (file_table s)[unat fd := file2],
                 current_process :=
                   map_option (\<lambda>p. p\<lparr>open_files := (open_files p)[unat fd := 0]\<rparr>)
                     (current_process s)\<rparr>))"

text \<open>
  A back-end to run the handlers on: one file (inode 0) whose contents are the
  back-end's state. Reads copy from the offset, writes overwrite or extend at the
  offset, and creating a file leaves the single file in place.
\<close>

definition ramfs :: "(u8 list) fs_ops" where
  "ramfs =
     \<lparr>fs_get_inode = (\<lambda>d n. (if n = 0 then Some 0 else None, d)),
      fs_read_inode = (\<lambda>d i off cnt.
         (let bs = take (unat cnt) (drop (unat off) d) in ((of_nat (length bs), bs), d))),
      fs_write_inode = (\<lambda>d i off bs.
         (of_nat (length bs), take (unat off) d @ bs @ drop (unat off + length bs) d)),
      fs_create_file = (\<lambda>d path m. (0, d))\<rparr>"

text \<open>The state after \<^verbatim>\<open>syscall_init\<close>: every slot of the file table is closed.\<close>

definition closed_file :: file_descriptor where
  "closed_file = \<lparr>inode = None, offset = 0, flags = 0, mode = 0, ref_count = 0\<rparr>"

definition sys_state_init :: "'fs \<Rightarrow> 'fs sys_state" where
  "sys_state_init d =
     \<lparr>current_process = None, file_table = replicate MAX_OPEN_FILES closed_file,
      console = [], fs = d\<rparr>"

text \<open>
  Two states to run the handlers on: after one successful \<^verbatim>\<open>open\<close> on the fresh
  table, and with every slot from 3 upwards in use.
\<close>

definition sys_state_one_open :: "(u8 list) sys_state" where
  "sys_state_one_open = snd (sys_open ramfs (sys_state_init []) (Some ''/tmp/x'') 0 0)"

definition open_file :: file_descriptor where
  "open_file = \<lparr>inode = Some 0, offset = 0, flags = 0, mode = 0, ref_count = 1\<rparr>"

definition sys_state_full :: "(u8 list) sys_state" where
  "sys_state_full =
     \<lparr>current_process = None,
      file_table = replicate 3 closed_file @ replicate (MAX_OPEN_FILES - 3) open_file,
      console = [], fs = []\<rparr>"

section \<open>Process management (src/kernel/core/process.c)\<close>

text \<open>
  The process structures are allocated with \<^verbatim>\<open>kmalloc\<close> and linked through their
  \<^verbatim>\<open>next\<close> and \<^verbatim>\<open>prev\<close> fields: \<open>heap\<close> maps the address of each structure to its
  contents, and the globals \<^verbatim>\<open>current_process\<close>, \<^verbatim>\<open>process_list\<close> and
  \<^verbatim>\<open>ready_queue\<close> hold addresses.
\<close>

record pm_state =
  current_process :: "proc_ref option"
  process_list :: "proc_ref option"
  ready_queue :: "proc_ref option"
  next_pid :: u32
  heap :: "proc_ref \<Rightarrow> process"

text \<open>The assignments \<^verbatim>\<open>a->next = v\<close> and \<^verbatim>\<open>a->prev = v\<close>.\<close>

definition set_next :: "(proc_ref \<Rightarrow> process) \<Rightarrow> proc_ref \<Rightarrow> proc_ref option \<Rightarrow> proc_ref \<Rightarrow> process" where
  "set_next h a v = h(a := (h a)\<lparr>next := v\<rparr>)"

definition set_prev :: "(proc_ref \<Rightarrow> process) \<Rightarrow> proc_ref \<Rightarrow> proc_ref option \<Rightarrow> proc_ref \<Rightarrow> process" where
  "set_prev h a v = h(a := (h a)\<lparr>prev := v\<rparr>)"

text \<open>
  The search loop of \<^verbatim>\<open>add_to_ready_queue\<close>:
  \<^verbatim>\<open>while (curr->next && curr->next->priority >= proc->priority) curr = curr->next;\<close>
  It follows the \<^verbatim>\<open>next\<close> pointers and need not end on a cyclic queue: no result is
  \<open>None\<close>.
\<close>

partial_function (option) queue_walk ::
  "(proc_ref \<Rightarrow> process) \<Rightarrow> u32 \<Rightarrow> proc_ref \<Rightarrow> proc_ref option" where
  "queue_walk h pri cur =
     (case next (h cur) of
        None \<Rightarrow> Some cur
      | Some n \<Rightarrow> if priority (h n) \<ge> pri then queue_walk h pri n else Some cur)"

declare queue_walk.simps [code]

text \<open>
  \<^verbatim>\<open>add_to_ready_queue(proc)\<close>; \<open>None\<close> as the result means that the search loop does
  not end.
\<close>

definition add_to_ready_queue :: "pm_state \<Rightarrow> proc_ref option \<Rightarrow> pm_state option" where
  "add_to_ready_queue s proc =
     (case proc of
        None \<Rightarrow> Some s
      | Some p \<Rightarrow>
          if state (heap s p) \<noteq> PROCESS_READY then Some s
          else if ready_queue s = None
                  \<or> priority (heap s p) > priority (heap s (the (ready_queue s)))
          then
            (let h = heap s;
                 h = set_next h p (ready_queue s);
                 h = (case ready_queue s of None \<Rightarrow> h | Some q \<Rightarrow> set_prev h q (Some p));
                 h = set_prev h p None
             in Some (s\<lparr>heap := h, ready_queue := Some p\<rparr>))
          else
            (case queue_walk (heap s) (priority (heap s p)) (the (ready_queue s)) of
               None \<Rightarrow> None
             | Some cur \<Rightarrow>
                 (let h = heap s;
                      h = set_next h p (next (h cur));
                      h = (case next (h cur) of None \<Rightarrow> h | Some n \<Rightarrow> set_prev h n (Some p));
                      h = set_prev h p (Some cur);
                      h = set_next h cur (Some p)
                  in Some (s\<lparr>heap := h\<rparr>))))"

text \<open>\<^verbatim>\<open>remove_from_ready_queue(proc)\<close>.\<close>

definition remove_from_ready_queue :: "pm_state \<Rightarrow> proc_ref option \<Rightarrow> pm_state" where
  "remove_from_ready_queue s proc =
     (case proc of
        None \<Rightarrow> s
      | Some p \<Rightarrow>
          (let h = heap s;
               (h, rq) = (case prev (h p) of
                            Some q \<Rightarrow> (set_next h q (next (h p)), ready_queue s)
                          | None \<Rightarrow> (h, next (h p)));
               h = (case next (h p) of Some n \<Rightarrow> set_prev h n (prev (h p)) | None \<Rightarrow> h);
               h = set_prev h p None;
               h = set_next h p None
           in s\<lparr>heap := h, ready_queue := rq\<rparr>))"

text \<open>
  \<^verbatim>\<open>process_init\<close>; \<open>init_proc\<close> is the address \<^verbatim>\<open>kmalloc\<close> returned for the
  structure (\<^verbatim>\<open>kmalloc\<close> returns no null pointer: it panics instead).
\<close>

definition process_init :: "pm_state \<Rightarrow> proc_ref \<Rightarrow> pm_state" where
  "process_init s init_proc =
     s\<lparr>heap := (heap s)
          (init_proc :=
             \<lparr>pid = 1, ppid = 0, state = PROCESS_RUNNING, priority = 10, uid = 0, gid = 0,
              open_files = replicate MAX_OPEN_FILES 0, next = None, prev = None,
              security_level = 4\<rparr>),
       process_list := Some init_proc,
       current_process := Some init_proc\<rparr>"

text \<open>
  \<^verbatim>\<open>process_create\<close> up to its call of \<^verbatim>\<open>add_to_ready_queue\<close>: the new structure,
  at the fresh address \<open>proc\<close> that \<^verbatim>\<open>kmalloc\<close> returned, is filled in and put at
  the head of \<^verbatim>\<open>process_list\<close>, through the same \<^verbatim>\<open>next\<close> and \<^verbatim>\<open>prev\<close> fields
  that link the ready queue. The scheduler lock, which the function takes and
  releases, is free on entry.
\<close>

definition process_linked :: "pm_state \<Rightarrow> proc_ref \<Rightarrow> pm_state" where
  "process_linked s proc =
     (let cur = map_option (heap s) (current_process s);
          new = \<lparr>pid = next_pid s,
                 ppid = (case cur of Some c \<Rightarrow> pid c | None \<Rightarrow> 0),
                 state = PROCESS_READY,
                 priority = 20,
                 uid = (case cur of Some c \<Rightarrow> uid c | None \<Rightarrow> 0),
                 gid = (case cur of Some c \<Rightarrow> gid c | None \<Rightarrow> 0),
                 open_files = replicate MAX_OPEN_FILES 0,
                 next = process_list s,
                 prev = prev (heap s proc),
                 security_level = (case cur of Some c \<Rightarrow> security_level c | None \<Rightarrow> 0)\<rparr>;
          h = (heap s)(proc := new);
          h = (case process_list s of Some q \<Rightarrow> set_prev h q (Some proc) | None \<Rightarrow> h);
          h = set_prev h proc None
      in s\<lparr>heap := h, process_list := Some proc, next_pid := next_pid s + 1\<rparr>)"

text \<open>
  \<^verbatim>\<open>process_create\<close>: the value returned, \<^verbatim>\<open>proc->pid\<close> as an \<^verbatim>\<open>int\<close>, and the
  new state.
\<close>

definition process_create :: "pm_state \<Rightarrow> proc_ref \<Rightarrow> (int \<times> pm_state) option" where
  "process_create s proc =
     (case add_to_ready_queue (process_linked s proc) (Some proc) of
        None \<Rightarrow> None
      | Some s' \<Rightarrow> Some (sint (pid (heap s' proc)), s'))"

text \<open>
  The loop of \<^verbatim>\<open>process_schedule\<close> that takes the zombies out of
  \<^verbatim>\<open>process_list\<close>, from the structure \<open>proc\<close> on; \<^verbatim>\<open>kfree\<close> does nothing. No result
  is \<open>None\<close>.
\<close>

partial_function (option) reap_zombies :: "pm_state \<Rightarrow> proc_ref option \<Rightarrow> pm_state option" where
  "reap_zombies s proc =
     (if proc = None then Some s
      else
        (let p = the proc;
             nx = next (heap s p)
         in if state (heap s p) = PROCESS_ZOMBIE
            then
              (let s = (case prev (heap s p) of
                          Some q \<Rightarrow> s\<lparr>heap := set_next (heap s) q (next (heap s p))\<rparr>
                        | None \<Rightarrow> s\<lparr>process_list := next (heap s p)\<rparr>);
                   s = (case next (heap s p) of
                          Some n \<Rightarrow> s\<lparr>heap := set_prev (heap s) n (prev (heap s p))\<rparr>
                        | None \<Rightarrow> s)
               in reap_zombies s nx)
            else reap_zombies s nx))"

declare reap_zombies.simps [code]

text \<open>
  \<^verbatim>\<open>process_schedule\<close>, entered with the scheduler lock free; the tick counter, which
  it only increments, is left out.
\<close>

definition process_schedule :: "pm_state \<Rightarrow> pm_state option" where
  "process_schedule s =
     (case (case current_process s of
              None \<Rightarrow> Some s
            | Some c \<Rightarrow>
                if state (heap s c) = PROCESS_RUNNING
                then add_to_ready_queue
                       (s\<lparr>heap := (heap s)(c := (heap s c)\<lparr>state := PROCESS_READY\<rparr>)\<rparr>) (Some c)
                else Some s) of
        None \<Rightarrow> None
      | Some s \<Rightarrow>
          (let next_proc = ready_queue s
           in case reap_zombies s (process_list s) of
                None \<Rightarrow> None
              | Some s \<Rightarrow>
                  (case next_proc of
                     Some n \<Rightarrow>
                       (let s = remove_from_ready_queue s (Some n)
                        in Some (s\<lparr>heap := (heap s)(n := (heap s n)\<lparr>state := PROCESS_RUNNING\<rparr>),
                                   current_process := Some n\<rparr>))
                   | None \<Rightarrow> Some (s\<lparr>current_process := None\<rparr>))))"

text \<open>
  The queue a state holds, as the list of its addresses from the head:
  \<open>next_chain h p xs\<close> says that following \<^verbatim>\<open>next\<close> from the pointer \<open>p\<close> visits
  exactly the structures \<open>xs\<close> and ends in the null pointer. This is the order in which
  \<^verbatim>\<open>add_to_ready_queue\<close> walks the queue and \<^verbatim>\<open>process_schedule\<close> takes its head.
\<close>

primrec next_chain :: "(proc_ref \<Rightarrow> process) \<Rightarrow> proc_ref option \<Rightarrow> proc_ref list \<Rightarrow> bool" where
  "next_chain h p [] = (p = None)"
| "next_chain h p (x # xs) = (p = Some x \<and> next_chain h (next (h x)) xs)"

definition ready_list :: "pm_state \<Rightarrow> proc_ref list \<Rightarrow> bool" where
  "ready_list s xs = next_chain (heap s) (ready_queue s) xs"

text \<open>Descending priority along a list of addresses.\<close>

definition priority_sorted :: "(proc_ref \<Rightarrow> process) \<Rightarrow> proc_ref list \<Rightarrow> bool" where
  "priority_sorted h xs = sorted_wrt (\<lambda>a b. priority (h a) \<ge> priority (h b)) xs"

text \<open>
  States to run the functions on. The globals start as their initialisers say, over a
  zeroed memory. \<open>pm_two_created\<close> is the state after \<^verbatim>\<open>process_init\<close> and two calls
  of \<^verbatim>\<open>process_create\<close>, with the structures at the addresses 100 (init), 200 and
  300; \<open>pm_three_created\<close> is the state after a third call, with the structure at 400.
\<close>

definition blank_memory :: "proc_ref \<Rightarrow> process" where
  "blank_memory =
     (\<lambda>a. \<lparr>pid = 0, ppid = 0, state = PROCESS_READY, priority = 0, uid = 0, gid = 0,
           open_files = replicate MAX_OPEN_FILES 0, next = None, prev = None,
           security_level = 0\<rparr>)"

definition pm_boot :: pm_state where
  "pm_boot =
     \<lparr>current_process = None, process_list = None, ready_queue = None, next_pid = 1,
      heap = blank_memory\<rparr>"

definition pm_two_created :: pm_state where
  "pm_two_created =
     snd (the (process_create (snd (the (process_create (process_init pm_boot 100) 200))) 300))"

definition pm_three_created :: pm_state where
  "pm_three_created = snd (the (process_create pm_two_created 400))"

section \<open>Path security (src/kernel/fs/vfs.c)\<close>

text \<open>
  The C library's \<^verbatim>\<open>strstr(haystack, needle)\<close>: a pointer to the first occurrence of
  \<open>needle\<close> in \<open>haystack\<close>, here its index, or \<^verbatim>\<open>NULL\<close>, here \<open>None\<close>. A C
  string is the list of its characters before the terminating NUL.
\<close>

fun starts_with :: "string \<Rightarrow> string \<Rightarrow> bool" where
  "starts_with s [] = True"
| "starts_with [] (c # cs) = False"
| "starts_with (x # xs) (c # cs) = (x = c \<and> starts_with xs cs)"

fun strstr :: "string \<Rightarrow> string \<Rightarrow> nat option" where
  "strstr [] needle = (if needle = [] then Some 0 else None)"
| "strstr (h # hs) needle =
     (if starts_with (h # hs) needle then Some 0 else map_option Suc (strstr hs needle))"

text \<open>
  \<^verbatim>\<open>check_path_security(path, operation)\<close>, with the \<^verbatim>\<open>current_process\<close> it reads
  as an argument (\<open>None\<close> is the null pointer: kernel context). The result is the C
  return value: 0 allows, -1 denies.
\<close>

definition check_path_security :: "process option \<Rightarrow> string \<Rightarrow> u32 \<Rightarrow> int" where
  "check_path_security cur path operation =
     (case cur of
        None \<Rightarrow> 0
      | Some p \<Rightarrow>
          if security_level p < 2
             \<and> (strstr path ''/classified/'' \<noteq> None
                \<or> strstr path ''/secret/'' \<noteq> None
                \<or> strstr path ''/pentagon/'' \<noteq> None)
          then - 1
          else if operation AND 0x02 \<noteq> 0
                  \<and> (strstr path ''/system/'' \<noteq> None \<and> uid p \<noteq> 0)
          then - 1
          else 0)"

text \<open>A process with the given owner and clearance, to run the check on.\<close>

definition process_of :: "u32 \<Rightarrow> u8 \<Rightarrow> process" where
  "process_of owner level =
     \<lparr>pid = 7, ppid = 1, state = PROCESS_RUNNING, priority = 20, uid = owner, gid = owner,
      open_files = replicate MAX_OPEN_FILES 0, next = None, prev = None,
      security_level = level\<rparr>"

section \<open>AES-256 in CBC mode (src/userland/sentinal_send/src/crypto.c)\<close>

definition AES_BLOCK_SIZE :: nat where "AES_BLOCK_SIZE = 16"
definition AES_KEY_SIZE :: nat where "AES_KEY_SIZE = 32"
definition AES_ROUNDS :: nat where "AES_ROUNDS = 14"

definition sbox :: "u8 list" where
  "sbox =
     [
      0x63, 0x7C, 0x77, 0x7B, 0xF2, 0x6B, 0x6F, 0xC5, 0x30, 0x01, 0x67, 0x2B, 0xFE, 0xD7, 0xAB, 0x76,
      0xCA, 0x82, 0xC9, 0x7D, 0xFA, 0x59, 0x47, 0xF0, 0xAD, 0xD4, 0xA2, 0xAF, 0x9C, 0xA4, 0x72, 0xC0,
      0xB7, 0xFD, 0x93, 0x26, 0x36, 0x3F, 0xF7, 0xCC, 0x34, 0xA5, 0xE5, 0xF1, 0x71, 0xD8, 0x31, 0x15,
      0x04, 0xC7, 0x23, 0xC3, 0x18, 0x96, 0x05, 0x9A, 0x07, 0x12, 0x80, 0xE2, 0xEB, 0x27, 0xB2, 0x75,
      0x09, 0x83, 0x2C, 0x1A, 0x1B, 0x6E, 0x5A, 0xA0, 0x52, 0x3B, 0xD6, 0xB3, 0x29, 0xE3, 0x2F, 0x84,
      0x53, 0xD1, 0x00, 0xED, 0x20, 0xFC, 0xB1, 0x5B, 0x6A, 0xCB, 0xBE, 0x39, 0x4A, 0x4C, 0x58, 0xCF,
      0xD0, 0xEF, 0xAA, 0xFB, 0x43, 0x4D, 0x33, 0x85, 0x45, 0xF9, 0x02, 0x7F, 0x50, 0x3C, 0x9F, 0xA8,
      0x51, 0xA3, 0x40, 0x8F, 0x92, 0x9D, 0x38, 0xF5, 0xBC, 0xB6, 0xDA, 0x21, 0x10, 0xFF, 0xF3, 0xD2,
      0xCD, 0x0C, 0x13, 0xEC, 0x5F, 0x97, 0x44, 0x17, 0xC4, 0xA7, 0x7E, 0x3D, 0x64, 0x5D, 0x19, 0x73,
      0x60, 0x81, 0x4F, 0xDC, 0x22, 0x2A, 0x90, 0x88, 0x46, 0xEE, 0xB8, 0x14, 0xDE, 0x5E, 0x0B, 0xDB,
      0xE0, 0x32, 0x3A, 0x0A, 0x49, 0x06, 0x24, 0x5C, 0xC2, 0xD3, 0xAC, 0x62, 0x91, 0x95, 0xE4, 0x79,
      0xE7, 0xC8, 0x37, 0x6D, 0x8D, 0xD5, 0x4E, 0xA9, 0x6C, 0x56, 0xF4, 0xEA, 0x65, 0x7A, 0xAE, 0x08,
      0xBA, 0x78, 0x25, 0x2E, 0x1C, 0xA6, 0xB4, 0xC6, 0xE8, 0xDD, 0x74, 0x1F, 0x4B, 0xBD, 0x8B, 0x8A,
      0x70, 0x3E, 0xB5, 0x66, 0x48, 0x03, 0xF6, 0x0E, 0x61, 0x35, 0x57, 0xB9, 0x86, 0xC1, 0x1D, 0x9E,
      0xE1, 0xF8, 0x98, 0x11, 0x69, 0xD9, 0x8E, 0x94, 0x9B, 0x1E, 0x87, 0xE9, 0xCE, 0x55, 0x28, 0xDF,
      0x8C, 0xA1, 0x89, 0x0D, 0xBF, 0xE6, 0x42, 0x68, 0x41, 0x99, 0x2D, 0x0F, 0xB0, 0x54, 0xBB, 0x16
     ]"

definition rcon :: "u8 list" where
  "rcon = [0x00, 0x01, 0x02, 0x04, 0x08, 0x10, 0x20, 0x40, 0x80, 0x1B, 0x36]"

text \<open>\<^verbatim>\<open>struct aes_context\<close>.\<close>

record aes_context =
  round_keys :: "u32 list"
  iv :: "u8 list"
  initialized :: bool

definition sub_word :: "u32 \<Rightarrow> u32" where
  "sub_word w =
     push_bit 24 (ucast (sbox ! unat (drop_bit 24 w)))
     OR push_bit 16 (ucast (sbox ! unat (drop_bit 16 w AND 0xFF)))
     OR push_bit 8 (ucast (sbox ! unat (drop_bit 8 w AND 0xFF)))
     OR ucast (sbox ! unat (w AND 0xFF))"

definition rot_word :: "u32 \<Rightarrow> u32" where
  "rot_word w = push_bit 8 w OR drop_bit 24 w"

text \<open>
  The functions on the 16-byte state update it in place, byte by byte; the loops over a
  fixed range are folds over the indices.
\<close>

definition add_round_key :: "u8 list \<Rightarrow> u32 list \<Rightarrow> u8 list" where
  "add_round_key st round_key =
     fold (\<lambda>i st.
        let key = round_key ! i;
            st = st[i * 4 + 0 := st ! (i * 4 + 0) XOR ucast (drop_bit 24 key AND 0xFF)];
            st = st[i * 4 + 1 := st ! (i * 4 + 1) XOR ucast (drop_bit 16 key AND 0xFF)];
            st = st[i * 4 + 2 := st ! (i * 4 + 2) XOR ucast (drop_bit 8 key AND 0xFF)];
            st = st[i * 4 + 3 := st ! (i * 4 + 3) XOR ucast (key AND 0xFF)]
        in st) [0..<4] st"

definition sub_bytes :: "u8 list \<Rightarrow> u8 list" where
  "sub_bytes st = fold (\<lambda>i st. st[i := sbox ! unat (st ! i)]) [0..<16] st"

definition shift_rows :: "u8 list \<Rightarrow> u8 list" where
  "shift_rows st =
     (let temp = st ! 1;
          st = st[1 := st ! 5]; st = st[5 := st ! 9]; st = st[9 := st ! 13];
          st = st[13 := temp];
          temp = st ! 2;
          st = st[2 := st ! 10]; st = st[10 := temp];
          temp = st ! 6;
          st = st[6 := st ! 14]; st = st[14 := temp];
          temp = st ! 3;
          st = st[3 := st ! 15]; st = st[15 := st ! 11]; st = st[11 := st ! 7];
          st = st[7 := temp]
      in st)"

definition xtime :: "u8 \<Rightarrow> u8" where
  "xtime x = push_bit 1 x XOR ((drop_bit 7 x AND 1) * 0x1B)"

definition mix_columns :: "u8 list \<Rightarrow> u8 list" where
  "mix_columns st =
     fold (\<lambda>i st.
        let a = take 4 (drop (i * 4) st);
            b = map xtime a;
            st = st[i * 4 + 0 := b ! 0 XOR a ! 3 XOR a ! 2 XOR b ! 1 XOR a ! 1];
            st = st[i * 4 + 1 := b ! 1 XOR a ! 0 XOR a ! 3 XOR b ! 2 XOR a ! 2];
            st = st[i * 4 + 2 := b ! 2 XOR a ! 1 XOR a ! 0 XOR b ! 3 XOR a ! 3];
            st = st[i * 4 + 3 := b ! 3 XOR a ! 2 XOR a ! 1 XOR b ! 0 XOR a ! 0]
        in st) [0..<4] st"

text \<open>
  \<^verbatim>\<open>key_expansion(key, round_keys)\<close> fills the 60 round-key words of a context that
  \<^verbatim>\<open>aes_init\<close> has just cleared.
\<close>

definition key_expansion :: "u8 list \<Rightarrow> u32 list \<Rightarrow> u32 list" where
  "key_expansion key rks =
     (let rks = fold (\<lambda>i rks.
                  rks[i := push_bit 24 (ucast (key ! (i * 4)))
                           OR push_bit 16 (ucast (key ! (i * 4 + 1)))
                           OR push_bit 8 (ucast (key ! (i * 4 + 2)))
                           OR ucast (key ! (i * 4 + 3))]) [0..<8] rks
      in fold (\<lambda>i rks.
           let temp = rks ! (i - 1);
               temp = (if i mod 8 = 0
                       then sub_word (rot_word temp) XOR push_bit 24 (ucast (rcon ! (i div 8)))
                       else if i mod 8 = 4 then sub_word temp
                       else temp)
           in rks[i := rks ! (i - 8) XOR temp]) [8..<4 * (AES_ROUNDS + 1)] rks)"

text \<open>
  \<^verbatim>\<open>aes_init(ctx, key, iv)\<close>: the context is an out-parameter, so only the key and the
  IV are arguments; \<open>None\<close> is a null pointer. The result is the return code and the
  context as the call leaves it.
\<close>

definition aes_context_zero :: aes_context where
  "aes_context_zero =
     \<lparr>round_keys = replicate (4 * (AES_ROUNDS + 1)) 0, iv = replicate AES_BLOCK_SIZE 0,
      initialized = False\<rparr>"

definition aes_init :: "u8 list option \<Rightarrow> u8 list option \<Rightarrow> int \<times> aes_context option" where
  "aes_init key iv0 =
     (case key of
        None \<Rightarrow> (- 1, None)
      | Some k \<Rightarrow>
          let ctx = aes_context_zero;
              ctx = ctx\<lparr>round_keys := key_expansion k (round_keys ctx)\<rparr>;
              ctx = (case iv0 of None \<Rightarrow> ctx | Some v \<Rightarrow> ctx\<lparr>iv := take AES_BLOCK_SIZE v\<rparr>);
              ctx = ctx\<lparr>aes_context.initialized := True\<rparr>
          in (0, Some ctx))"

definition aes_cleanup :: "aes_context \<Rightarrow> aes_context" where
  "aes_cleanup ctx = aes_context_zero"

text \<open>The rounds 1..13 of \<^verbatim>\<open>aes_encrypt_block\<close>.\<close>

definition aes_main_rounds :: "aes_context \<Rightarrow> u8 list \<Rightarrow> u8 list" where
  "aes_main_rounds ctx st =
     fold (\<lambda>round st.
        add_round_key (mix_columns (shift_rows (sub_bytes st)))
          (drop (round * 4) (round_keys ctx))) [1..<AES_ROUNDS] st"

definition aes_encrypt_block :: "aes_context \<Rightarrow> u8 list \<Rightarrow> int \<times> u8 list" where
  "aes_encrypt_block ctx plaintext =
     (if \<not> aes_context.initialized ctx then (- 1, [])
      else
        let st = take 16 plaintext;
            st = add_round_key st (round_keys ctx);
            st = aes_main_rounds ctx st;
            st = sub_bytes st;
            st = shift_rows st;
            st = add_round_key st (drop (AES_ROUNDS * 4) (round_keys ctx))
        in (0, st))"

text \<open>
  \<^verbatim>\<open>aes_encrypt_cbc(ctx, plaintext, len, ciphertext)\<close>, with \<open>len\<close> the length of the
  plaintext list. The loop over the blocks carries the previous ciphertext block,
  starting from the context's IV, and stops at the first block that fails.
\<close>

function cbc_loop :: "aes_context \<Rightarrow> u8 list \<Rightarrow> u8 list \<Rightarrow> int \<times> u8 list" where
  "cbc_loop ctx prev_block plaintext =
     (if plaintext = [] then (0, [])
      else
        let block = map2 (XOR) (take AES_BLOCK_SIZE plaintext) prev_block;
            (rc, c) = aes_encrypt_block ctx block
        in if rc \<noteq> 0 then (- 1, [])
           else (let (rc', cs) = cbc_loop ctx c (drop AES_BLOCK_SIZE plaintext)
                 in (rc', c @ cs)))"
  by pat_completeness auto
termination
  by (relation "measure (\<lambda>(ctx, prev, pt). length pt)") (auto simp: AES_BLOCK_SIZE_def)

declare cbc_loop.simps [simp del]

definition aes_encrypt_cbc :: "aes_context \<Rightarrow> u8 list \<Rightarrow> int \<times> u8 list" where
  "aes_encrypt_cbc ctx plaintext =
     (if length plaintext mod AES_BLOCK_SIZE \<noteq> 0 then (- 1, [])
      else cbc_loop ctx (aes_context.iv ctx) plaintext)"

text \<open>
  \<^verbatim>\<open>derive_key_from_password(password, salt, key)\<close>. \<open>None\<close> is a null pointer. The
  salt points to 16 readable bytes and \<open>key\<close> to a 32-byte array, whose old contents
  are the argument; \<open>junk\<close> is what the local array \<^verbatim>\<open>hash[32]\<close> holds on entry. A
  password character enters as its byte. The result is the return code with the
  contents of \<open>key\<close> after the call.
\<close>

definition mix_password :: "string \<Rightarrow> u8 list \<Rightarrow> u8 list" where
  "mix_password password hash =
     fold (\<lambda>i h. h[i mod 32 := h ! (i mod 32) XOR of_char (password ! i)])
       [0..<length password] hash"

definition simple_round :: "nat \<Rightarrow> u8 list \<Rightarrow> u8 list" where
  "simple_round round hash =
     fold (\<lambda>i h. h[i := h ! i XOR h ! ((i + 1) mod 32) XOR (of_nat round AND 0xFF)])
       [0..<32] hash"

definition derive_key_from_password ::
  "u8 list \<Rightarrow> string option \<Rightarrow> u8 list option \<Rightarrow> u8 list option \<Rightarrow> int \<times> u8 list option" where
  "derive_key_from_password junk password salt0 key =
     (case (password, salt0, key) of
        (Some pw, Some s, Some old_key) \<Rightarrow>
          let hash = junk;
              hash = take 16 s @ drop 16 hash;
              hash = take 16 hash @ replicate 16 0 @ drop 32 hash;
              hash = mix_password pw hash;
              hash = fold simple_round [0..<1000] hash
          in (0, Some (take 32 hash @ drop 32 old_key))
      | _ \<Rightarrow> (- 1, key))"

text \<open>\<^verbatim>\<open>verify_security_clearance\<close>, on the classification of the context.\<close>

definition verify_security_clearance :: "u8 \<Rightarrow> u8 \<Rightarrow> int" where
  "verify_security_clearance classification_level user_clearance =
     (if user_clearance \<ge> classification_level then 0 else - 1)"

section \<open>The file-transfer tool (src/userland/sentinal_send/src/sentinal_send.c)\<close>

definition BUFFER_SIZE :: nat where "BUFFER_SIZE = 8192"
definition SALT_SIZE :: nat where "SALT_SIZE = 16"

text \<open>
  \<^verbatim>\<open>struct options\<close>, as \<^verbatim>\<open>main\<close> has filled it from the command line. A string
  option is \<open>None\<close> for a null pointer.
\<close>

record options =
  input_file :: "string option"
  output_file :: "string option"
  password :: "string option"
  source_system :: "string option"
  dest_system :: "string option"
  classification :: u8
  user_clearance :: u8
  encrypt_mode :: bool
  decrypt_mode :: bool
  verbose :: bool
  force_overwrite :: bool

text \<open>\<^verbatim>\<open>struct file_header\<close>, declared \<^verbatim>\<open>__attribute__((packed))\<close>.\<close>

record file_header =
  magic :: "u8 list"
  version :: "u8 list"
  classification :: u8
  flags :: u8
  reserved :: u16
  salt :: "u8 list"
  iv :: "u8 list"
  original_size :: u64
  checksum :: u32
  header_checksum :: u32

text \<open>
  The bytes of the header as \<^verbatim>\<open>write(output_fd, &header, sizeof(header))\<close> emits
  them: the struct is packed, so the fields follow each other without padding, and the
  integers are little-endian (the tool is built for AMD64).
\<close>

definition le_bytes :: "nat \<Rightarrow> 'a::len word \<Rightarrow> u8 list" where
  "le_bytes n w = map (\<lambda>i. ucast (drop_bit (8 * i) w)) [0..<n]"

definition header_bytes :: "file_header \<Rightarrow> u8 list" where
  "header_bytes h =
     magic h @ version h @ [file_header.classification h, file_header.flags h]
     @ le_bytes 2 (reserved h) @ salt h @ file_header.iv h @ le_bytes 8 (original_size h)
     @ le_bytes 4 (checksum h) @ le_bytes 4 (header_checksum h)"

definition calculate_checksum :: "u8 list \<Rightarrow> u32" where
  "calculate_checksum data = fold (\<lambda>b checksum. push_bit 1 checksum XOR ucast b) data 0"

text \<open>
  What the tool's environment answers: the contents of the input file (\<open>None\<close>: it
  cannot be opened), the size \<^verbatim>\<open>fstat\<close> reports (\<open>None\<close>: it fails), whether the
  output file can be created, the bytes the two reads of \<^verbatim>\<open>/dev/urandom\<close> deliver
  (\<open>None\<close>: the device cannot be opened), whether writes to the output succeed in
  full, and the characters that standard input still holds when the password prompt
  reads it.
\<close>

record world =
  input_contents :: "u8 list option"
  stat_size :: "u64 option"
  output_creatable :: bool
  urandom_salt :: "u8 list option"
  urandom_iv :: "u8 list option"
  writes_succeed :: bool
  stdin_contents :: string

text \<open>
  \<^verbatim>\<open>generate_random_salt(salt, len)\<close> and \<^verbatim>\<open>generate_random_iv(iv)\<close>: success only
  when the read delivered all the bytes asked for.
\<close>

definition generate_random :: "u8 list option \<Rightarrow> nat \<Rightarrow> int \<times> u8 list" where
  "generate_random delivered len =
     (case delivered of
        None \<Rightarrow> (- 1, replicate len 0)
      | Some bs \<Rightarrow> (if length bs = len then (0, bs)
                   else (- 1, take len bs @ replicate (len - length bs) 0)))"

text \<open>
  The read loop of \<^verbatim>\<open>encrypt_file\<close>: each \<^verbatim>\<open>read\<close> delivers up to
  \<^verbatim>\<open>BUFFER_SIZE\<close> bytes of what is left of the input; the chunk is padded to a
  multiple of 16 with bytes equal to the padding length (\<open>pad_chunk\<close>, the first
  statements of the loop body), encrypted in CBC mode from the context's IV, and
  written. The result is the return code and the bytes written.
\<close>

definition pad_chunk :: "u8 list \<Rightarrow> u8 list" where
  "pad_chunk chunk =
     (let bytes_read = length chunk;
          padded_size = ((bytes_read + AES_BLOCK_SIZE - 1) div AES_BLOCK_SIZE) * AES_BLOCK_SIZE
      in if padded_size > bytes_read
         then chunk @ replicate (padded_size - bytes_read) (of_nat (padded_size - bytes_read))
         else chunk)"

function encrypt_chunks :: "aes_context \<Rightarrow> bool \<Rightarrow> u8 list \<Rightarrow> int \<times> u8 list" where
  "encrypt_chunks ctx writes_ok input =
     (if input = [] then (0, [])
      else
        let buffer = pad_chunk (take BUFFER_SIZE input);
            (rc, encrypted) = aes_encrypt_cbc ctx buffer
        in if rc \<noteq> 0 then (- 1, [])
           else if \<not> writes_ok then (- 1, [])
           else (let (rc', more) = encrypt_chunks ctx writes_ok (drop BUFFER_SIZE input)
                 in (rc', encrypted @ more)))"
  by pat_completeness auto
termination
  by (relation "measure (\<lambda>(ctx, w, input). length input)") (auto simp: BUFFER_SIZE_def)

declare encrypt_chunks.simps [simp del]

text \<open>
  \<^verbatim>\<open>encrypt_file(opts)\<close>: the return code and the contents of the output file
  (\<open>None\<close>: it was not created). \<open>junk\<close> is what the local key derivation finds on its
  stack.
\<close>

definition header_init :: "options \<Rightarrow> u64 \<Rightarrow> file_header" where
  "header_init opts size0 =
     \<lparr>magic = map of_char ''SENTINAL'', version = [1, 0, 0, 0],
      classification = options.classification opts, flags = 0x01, reserved = 0,
      salt = replicate SALT_SIZE 0, iv = replicate AES_BLOCK_SIZE 0,
      original_size = size0, checksum = 0, header_checksum = 0\<rparr>"

definition encrypt_file :: "u8 list \<Rightarrow> options \<Rightarrow> world \<Rightarrow> int \<times> u8 list option" where
  "encrypt_file junk opts w =
     (if source_system opts = None \<or> dest_system opts = None then (- 1, None)
      else if verify_security_clearance (options.classification opts) (user_clearance opts) \<noteq> 0
      then (- 1, None)
      else
       (case input_contents w of
          None \<Rightarrow> (- 1, None)
        | Some input \<Rightarrow>
           (case stat_size w of
              None \<Rightarrow> (- 1, None)
            | Some st_size \<Rightarrow>
               (if \<not> output_creatable w then (- 1, None)
                else
                 (let header = header_init opts st_size;
                      (rc_salt, salt_bytes) = generate_random (urandom_salt w) SALT_SIZE;
                      header = header\<lparr>salt := salt_bytes\<rparr>;
                      (rc_iv, iv_bytes) =
                        (if rc_salt \<noteq> 0 then (0, file_header.iv header)
                         else generate_random (urandom_iv w) AES_BLOCK_SIZE);
                      header = header\<lparr>file_header.iv := iv_bytes\<rparr>
                  in if rc_salt \<noteq> 0 \<or> rc_iv \<noteq> 0 then (- 1, Some [])
                     else
                      (let (rc_key, key) =
                             derive_key_from_password junk (password opts)
                               (Some (salt header)) (Some (replicate AES_KEY_SIZE 0))
                       in if rc_key \<noteq> 0 then (- 1, Some [])
                          else
                           (let (rc_aes, ctx) = aes_init key (Some (file_header.iv header))
                            in if rc_aes \<noteq> 0 \<or> ctx = None then (- 1, Some [])
                               else
                                (let aes_ctx = the ctx;
                                     header = header\<lparr>header_checksum :=
                                        calculate_checksum
                                          (take (length (header_bytes header) - 4)
                                             (header_bytes header))\<rparr>
                                 in if \<not> writes_succeed w then (- 1, Some [])
                                    else
                                     (let (rc, body) =
                                            encrypt_chunks aes_ctx (writes_succeed w) input
                                      in (if rc \<noteq> 0 then - 1 else 0,
                                          Some (header_bytes header @ body)))))))))))"

text \<open>
  \<^verbatim>\<open>fgets(buf, n, stdin)\<close> on the characters \<open>inp\<close> that standard input holds: it
  stores the characters up to and including the first newline, but at most \<open>n - 1\<close>
  of them; at the end of input it returns the null pointer, \<open>None\<close>.
\<close>

definition MAX_PASSWORD :: nat where "MAX_PASSWORD = 128"

definition fgets :: "nat \<Rightarrow> string \<Rightarrow> string option" where
  "fgets n inp =
     (if inp = [] then None
      else Some (take (n - 1)
                   (takeWhile (\<lambda>c. c \<noteq> CHR 0x0A) inp
                    @ take 1 (dropWhile (\<lambda>c. c \<noteq> CHR 0x0A) inp))))"

text \<open>
  \<^verbatim>\<open>secure_getpass(prompt)\<close>: the line read into a buffer of \<^verbatim>\<open>MAX_PASSWORD\<close>
  characters, as the C string it is (\<^verbatim>\<open>strlen\<close> ends at the first NUL), without a
  newline at its end.
\<close>

definition secure_getpass :: "string \<Rightarrow> string option" where
  "secure_getpass inp =
     (case fgets MAX_PASSWORD inp of
        None \<Rightarrow> None
      | Some buf \<Rightarrow>
          (let password = takeWhile (\<lambda>c. c \<noteq> CHR 0x00) buf
           in Some (if password \<noteq> [] \<and> last password = CHR 0x0A then butlast password
                    else password)))"

text \<open>
  \<^verbatim>\<open>main\<close>, from the point where the command line has been parsed into the options:
  the exit status and the contents of the output file. Decrypt mode prints "Decrypt
  mode not yet implemented" and sets the result to -1.
\<close>

definition main_run :: "u8 list \<Rightarrow> options \<Rightarrow> world \<Rightarrow> int \<times> u8 list option" where
  "main_run junk opts w =
     (if \<not> encrypt_mode opts \<and> \<not> decrypt_mode opts then (1, None)
      else if encrypt_mode opts \<and> decrypt_mode opts then (1, None)
      else if input_file opts = None \<or> output_file opts = None then (1, None)
      else
        let opts = (if password opts = None
                    then opts\<lparr>password := secure_getpass (stdin_contents w)\<rparr> else opts)
        in if password opts = None then (1, None)
           else
             let (result, out) =
                   (if encrypt_mode opts then encrypt_file junk opts w else (- 1, None))
             in (if result \<noteq> 0 then 1 else 0, out))"

text \<open>
  Options and environments to run the tool on: encrypting and decrypting with the
  password \<open>hunter2\<close> at clearance 4, an environment in which every call succeeds
  (with the given input file, salt and IV), and sample values for the salt, the IV and
  the stack contents.
\<close>

definition opts_encrypt :: options where
  "opts_encrypt =
     \<lparr>input_file = Some ''document.txt'', output_file = Some ''document.enc'',
      password = Some ''hunter2'', source_system = Some ''UNKNOWN'',
      dest_system = Some ''UNKNOWN'', classification = 4, user_clearance = 4,
      encrypt_mode = True, decrypt_mode = False, verbose = False, force_overwrite = False\<rparr>"

definition opts_decrypt :: options where
  "opts_decrypt =
     opts_encrypt\<lparr>input_file := Some ''document.enc'', output_file := Some ''document.txt'',
       encrypt_mode := False, decrypt_mode := True\<rparr>"

definition world_with :: "u8 list \<Rightarrow> u8 list \<Rightarrow> u8 list \<Rightarrow> world" where
  "world_with input s v =
     \<lparr>input_contents = Some input, stat_size = Some (of_nat (length input)),
      output_creatable = True, urandom_salt = Some s, urandom_iv = Some v,
      writes_succeed = True, stdin_contents = []\<rparr>"

definition salt0 :: "u8 list" where
  "salt0 = [1, 2, 3, 4, 5, 6, 7, 8, 9, 10, 11, 12, 13, 14, 15, 16]"

definition iv0 :: "u8 list" where
  "iv0 = [17, 18, 19, 20, 21, 22, 23, 24, 25, 26, 27, 28, 29, 30, 31, 32]"

definition junk0 :: "u8 list" where
  "junk0 = replicate 32 0xAA"

section \<open>The scheduler (src/kernel/sched/scheduler.c)\<close>

datatype proc_state = PROC_RUNNING | PROC_READY | PROC_BLOCKED | PROC_ZOMBIE | PROC_DEAD

datatype security_level =
  SEC_UNCLASSIFIED | SEC_CONFIDENTIAL | SEC_SECRET | SEC_TOPSECRET | SEC_PENTAGON

text \<open>The integer value of each enumerator, which the comparisons use.\<close>

primrec security_rank :: "security_level \<Rightarrow> nat" where
  "security_rank SEC_UNCLASSIFIED = 0"
| "security_rank SEC_CONFIDENTIAL = 1"
| "security_rank SEC_SECRET = 2"
| "security_rank SEC_TOPSECRET = 3"
| "security_rank SEC_PENTAGON = 4"

text \<open>
  scheduler.c has its own \<^verbatim>\<open>struct process\<close>, here \<open>sched_process\<close>. The saved
  registers, the stack, the canary, the capabilities, the name and the family links
  are left out: the queue and dispatch functions below do not read them, and the
  register transfer of \<^verbatim>\<open>context_switch\<close> is inline assembly. The structures live in
  the array \<^verbatim>\<open>process_table[256]\<close>; a pointer to one is its index.
\<close>

record sched_process =
  pid :: u64
  ppid :: u64
  state :: proc_state
  sec_level :: security_level
  privileged :: bool
  priority :: u64
  time_slice :: u64
  "next" :: "nat option"
  prev :: "nat option"

text \<open>The static \<^verbatim>\<open>sched_state\<close> and the global \<^verbatim>\<open>current_process\<close>.\<close>

record sched_state =
  ready_queue :: "nat option"
  blocked_queue :: "nat option"
  process_table :: "nat \<Rightarrow> sched_process"
  next_pid :: u64
  total_processes :: u64
  context_switches :: u64
  initialized :: bool
  current_process :: "nat option"

text \<open>\<^verbatim>\<open>add_to_ready_queue(proc)\<close> of scheduler.c: the process becomes the head.\<close>

definition sched_add_to_ready_queue :: "sched_state \<Rightarrow> nat \<Rightarrow> sched_state" where
  "sched_add_to_ready_queue s proc =
     (let t = process_table s;
          t = t(proc := (t proc)\<lparr>state := PROC_READY\<rparr>);
          t = t(proc := (t proc)\<lparr>next := ready_queue s\<rparr>);
          t = t(proc := (t proc)\<lparr>prev := None\<rparr>);
          t = (case ready_queue s of
                 Some q \<Rightarrow> t(q := (t q)\<lparr>prev := Some proc\<rparr>)
               | None \<Rightarrow> t)
      in s\<lparr>process_table := t, ready_queue := Some proc\<rparr>)"

text \<open>\<^verbatim>\<open>remove_from_ready_queue(proc)\<close> of scheduler.c.\<close>

definition sched_remove_from_ready_queue :: "sched_state \<Rightarrow> nat \<Rightarrow> sched_state" where
  "sched_remove_from_ready_queue s proc =
     (let t = process_table s;
          (t, rq) = (case prev (t proc) of
                       Some q \<Rightarrow> (t(q := (t q)\<lparr>next := next (t proc)\<rparr>), ready_queue s)
                     | None \<Rightarrow> (t, next (t proc)));
          t = (case next (t proc) of
                 Some n \<Rightarrow> t(n := (t n)\<lparr>prev := prev (t proc)\<rparr>)
               | None \<Rightarrow> t);
          t = t(proc := (t proc)\<lparr>next := None\<rparr>);
          t = t(proc := (t proc)\<lparr>prev := None\<rparr>)
      in s\<lparr>process_table := t, ready_queue := rq\<rparr>)"

text \<open>
  \<^verbatim>\<open>security_check(src, dest, operation)\<close>: operation 0 is a read, anything else a
  write.
\<close>

definition security_check :: "sched_process \<Rightarrow> sched_process \<Rightarrow> int \<Rightarrow> bool" where
  "security_check src dest operation =
     (if operation = 0 then security_rank (sec_level src) \<ge> security_rank (sec_level dest)
      else security_rank (sec_level src) \<le> security_rank (sec_level dest))"

text \<open>
  \<^verbatim>\<open>context_switch(from, to)\<close>, without the register transfer: it counts the switch,
  marks the outgoing process ready and makes the incoming one the running current
  process.
\<close>

definition context_switch :: "sched_state \<Rightarrow> nat option \<Rightarrow> nat option \<Rightarrow> sched_state" where
  "context_switch s from to =
     (case (from, to) of
        (Some f, Some n) \<Rightarrow>
          (let s = s\<lparr>context_switches := context_switches s + 1\<rparr>;
               t = process_table s;
               t = t(f := (t f)\<lparr>state := PROC_READY\<rparr>);
               s = s\<lparr>current_process := Some n\<rparr>;
               t = t(n := (t n)\<lparr>state := PROC_RUNNING\<rparr>)
           in s\<lparr>process_table := t\<rparr>)
      | _ \<Rightarrow> s)"

text \<open>
  \<^verbatim>\<open>schedule()\<close>. The warning it logs when the security check refuses the head of the
  ready queue is not part of the state.
\<close>

definition schedule :: "sched_state \<Rightarrow> sched_state" where
  "schedule s =
     (if \<not> initialized s \<or> ready_queue s = None then s
      else
        let nxt = the (ready_queue s)
        in if current_process s \<noteq> None
              \<and> \<not> security_check (process_table s (the (current_process s)))
                     (process_table s nxt) 0
           then s
           else
             (let s1 = sched_remove_from_ready_queue s nxt;
                  s2 = (if current_process s1 \<noteq> None
                           \<and> state (process_table s1 (the (current_process s1))) = PROC_RUNNING
                        then sched_add_to_ready_queue s1 (the (current_process s1))
                        else s1)
              in context_switch s2 (current_process s2) (Some nxt)))"

text \<open>
  States to run the scheduler on. A table slot as \<^verbatim>\<open>create_process\<close> fills it
  (priority 10, time slice 10, parent 0), the idle process as \<^verbatim>\<open>create_idle_process\<close>
  fills slot 0, and an unused slot.
\<close>

definition slot ::
  "u64 \<Rightarrow> proc_state \<Rightarrow> security_level \<Rightarrow> bool \<Rightarrow> nat option \<Rightarrow> nat option \<Rightarrow> sched_process" where
  "slot n st lvl priv nx pv =
     \<lparr>pid = n, ppid = 0, state = st, sec_level = lvl, privileged = priv, priority = 10,
      time_slice = 10, next = nx, prev = pv\<rparr>"

definition idle_slot :: "proc_state \<Rightarrow> nat option \<Rightarrow> nat option \<Rightarrow> sched_process" where
  "idle_slot st nx pv =
     \<lparr>pid = 0, ppid = 0, state = st, sec_level = SEC_PENTAGON, privileged = True,
      priority = 0, time_slice = 0, next = nx, prev = pv\<rparr>"

definition dead_slot :: sched_process where
  "dead_slot =
     \<lparr>pid = 0, ppid = 0, state = PROC_DEAD, sec_level = SEC_UNCLASSIFIED,
      privileged = False, priority = 0, time_slice = 0, next = None, prev = None\<rparr>"

text \<open>
  The idle process (slot 0, PENTAGON) is running and a SECRET process (slot 2) heads
  the ready queue, before init (slot 1, PENTAGON): the state after
  \<^verbatim>\<open>scheduler_init\<close> and the creation of one SECRET process.
\<close>

definition sched_idle_running :: sched_state where
  "sched_idle_running =
     \<lparr>ready_queue = Some 2, blocked_queue = None,
      process_table = (\<lambda>i. dead_slot)
        (0 := idle_slot PROC_RUNNING None None,
         1 := slot 1 PROC_READY SEC_PENTAGON True None (Some 2),
         2 := slot 2 PROC_READY SEC_SECRET False (Some 1) None),
      next_pid = 3, total_processes = 2, context_switches = 0, initialized = True,
      current_process = Some 0\<rparr>"

text \<open>
  The same system one \<^verbatim>\<open>schedule\<close> later: the SECRET process is running; idle and
  init wait in the ready queue, idle first.
\<close>

definition sched_secret_running :: sched_state where
  "sched_secret_running =
     \<lparr>ready_queue = Some 0, blocked_queue = None,
      process_table = (\<lambda>i. dead_slot)
        (0 := idle_slot PROC_READY (Some 1) None,
         1 := slot 1 PROC_READY SEC_PENTAGON True None (Some 0),
         2 := slot 2 PROC_RUNNING SEC_SECRET False None None),
      next_pid = 3, total_processes = 2, context_switches = 1, initialized = True,
      current_process = Some 2\<rparr>"

text \<open>
  The state \<open>sched_idle_running\<close> with a third process, as \<^verbatim>\<open>create_process\<close> has
  filled slot 3 just before it calls \<^verbatim>\<open>add_to_ready_queue\<close>.
\<close>

definition sched_third_created :: sched_state where
  "sched_third_created =
     sched_idle_running\<lparr>process_table :=
       (process_table sched_idle_running)(3 := slot 3 PROC_READY SEC_SECRET False None None),
       next_pid := 4\<rparr>"

section \<open>The buddy allocator (src/kernel/mm/memory.c)\<close>

text \<open>
  \<^verbatim>\<open>struct page\<close>. The descriptors live in \<^verbatim>\<open>mm_state.page_array\<close>, so a pointer to
  a page is its index there, the page frame number; \<open>None\<close> is the null pointer.
\<close>

record page =
  flags :: u64
  ref_count :: u32
  order :: u32
  "next" :: "nat option"

text \<open>\<^verbatim>\<open>struct memory_zone\<close>, without its name; \<^verbatim>\<open>free_pages\<close> has 12 entries.\<close>

record memory_zone =
  free_pages :: "nat option list"
  start_pfn :: u64
  end_pfn :: u64
  free_pages_count :: u64
  total_pages :: u64

text \<open>The fields \<^verbatim>\<open>zones\<close> and \<^verbatim>\<open>page_array\<close> of \<^verbatim>\<open>mm_state\<close>.\<close>

record buddy_state =
  zones :: "memory_zone list"
  page_array :: "page list"

definition ZONE_NORMAL :: nat where "ZONE_NORMAL = 1"

text \<open>
  The removal of the buddy from its free list walks a pointer to a pointer,
  \<^verbatim>\<open>struct page **prev\<close>: it points either to the list head
  \<^verbatim>\<open>z->free_pages[order]\<close> or to the \<^verbatim>\<open>next\<close> field of a page.
\<close>

datatype link = ListHead | NextOf nat

definition load_link :: "page list \<Rightarrow> nat option list \<Rightarrow> nat \<Rightarrow> link \<Rightarrow> nat option" where
  "load_link pa fp k l = (case l of ListHead \<Rightarrow> fp ! k | NextOf i \<Rightarrow> next (pa ! i))"

definition store_link ::
  "page list \<Rightarrow> nat option list \<Rightarrow> nat \<Rightarrow> link \<Rightarrow> nat option \<Rightarrow> page list \<times> nat option list" where
  "store_link pa fp k l v =
     (case l of
        ListHead \<Rightarrow> (pa, fp[k := v])
      | NextOf i \<Rightarrow> (pa[i := (pa ! i)\<lparr>next := v\<rparr>], fp))"

text \<open>
  \<^verbatim>\<open>while (*prev && *prev != buddy) prev = &(*prev)->next;\<close> with \<open>l\<close> for
  \<^verbatim>\<open>prev\<close>. The walk need not end when the list is cyclic, and it leaves the page
  array when a \<^verbatim>\<open>next\<close> pointer does: both give \<open>None\<close>.
\<close>

partial_function (option) find_link ::
  "page list \<Rightarrow> nat option list \<Rightarrow> nat \<Rightarrow> nat \<Rightarrow> link \<Rightarrow> link option" where
  "find_link pa fp k buddy l =
     (case load_link pa fp k l of
        None \<Rightarrow> Some l
      | Some i \<Rightarrow>
          if i = buddy then Some l
          else if i < length pa then find_link pa fp k buddy (NextOf i)
          else None)"

declare find_link.simps [code]

text \<open>The three statements that take the buddy out of the free list of order \<open>k\<close>.\<close>

definition unlink_buddy ::
  "page list \<Rightarrow> nat option list \<Rightarrow> nat \<Rightarrow> nat \<Rightarrow> (page list \<times> nat option list) option" where
  "unlink_buddy pa fp k buddy =
     (case find_link pa fp k buddy ListHead of
        None \<Rightarrow> None
      | Some l \<Rightarrow>
          if load_link pa fp k l \<noteq> None then Some (store_link pa fp k l (next (pa ! buddy)))
          else Some (pa, fp))"

text \<open>
  The coalescing loop of \<^verbatim>\<open>buddy_free_pages\<close>, on the page array and the free lists
  of the zone. \<open>pfn\<close> is the frame number of \<^verbatim>\<open>page\<close>, which the loop updates together
  with it, and \<open>k\<close> the order, which is not negative. The source reads
  \<^verbatim>\<open>page_array[buddy_pfn]\<close> without a bounds check; a read outside the array gives
  \<open>None\<close>, as does a removal that does not end. The result is the state with the head
  frame and the order at the end of the loop.
\<close>

function coalesce ::
  "page list \<Rightarrow> nat option list \<Rightarrow> nat \<Rightarrow> nat
     \<Rightarrow> (page list \<times> nat option list \<times> nat \<times> nat) option" where
  "coalesce pa fp pfn k =
     (if k < 11 then
        (let buddy_pfn = pfn XOR 2 ^ k in
         if buddy_pfn \<ge> length pa then None
         else if ref_count (pa ! buddy_pfn) \<noteq> 0 \<or> unat (order (pa ! buddy_pfn)) \<noteq> k
         then Some (pa, fp, pfn, k)
         else
           (case unlink_buddy pa fp k buddy_pfn of
              None \<Rightarrow> None
            | Some (pa', fp') \<Rightarrow>
                coalesce pa' fp' (if pfn > buddy_pfn then buddy_pfn else pfn) (k + 1)))
      else Some (pa, fp, pfn, k))"
  by pat_completeness auto
termination
  by (relation "measure (\<lambda>(pa, fp, pfn, k). 11 - k)") auto

declare coalesce.simps [simp del]

text \<open>
  \<^verbatim>\<open>buddy_free_pages(page, order)\<close>, with \<open>pfn\<close> the index of \<^verbatim>\<open>page\<close> in the page
  array. The zone is always \<^verbatim>\<open>ZONE_NORMAL\<close>. An index outside the page array or the
  12 free lists gives \<open>None\<close>.
\<close>

definition buddy_free_pages :: "buddy_state \<Rightarrow> nat \<Rightarrow> nat \<Rightarrow> buddy_state option" where
  "buddy_free_pages m pfn k =
     (let z = zones m ! ZONE_NORMAL in
      if pfn \<ge> length (page_array m) then None
      else
        (case coalesce (page_array m) (free_pages z) pfn k of
           None \<Rightarrow> None
         | Some (pa, fp, pfn, k) \<Rightarrow>
             if k \<ge> length fp then None
             else
               (let pa = pa[pfn := (pa ! pfn)\<lparr>order := of_nat k\<rparr>];
                    pa = pa[pfn := (pa ! pfn)\<lparr>ref_count := 0\<rparr>];
                    pa = pa[pfn := (pa ! pfn)\<lparr>next := fp ! k\<rparr>];
                    fp = fp[k := Some pfn];
                    z = z\<lparr>free_pages := fp,
                          free_pages_count := free_pages_count z + push_bit k 1\<rparr>
                in Some (m\<lparr>zones := (zones m)[ZONE_NORMAL := z], page_array := pa\<rparr>))))"

text \<open>
  The splitting loop of \<^verbatim>\<open>buddy_alloc_pages\<close>:
  \<^verbatim>\<open>while (current_order > order) { current_order--; buddy = page + (1 << current_order);
  buddy->next = z->free_pages[current_order]; z->free_pages[current_order] = buddy; }\<close>
  It writes the \<^verbatim>\<open>next\<close> field of the buddy and nothing else of it.
\<close>

function split_block ::
  "page list \<Rightarrow> nat option list \<Rightarrow> nat \<Rightarrow> nat \<Rightarrow> nat
     \<Rightarrow> (page list \<times> nat option list) option" where
  "split_block pa fp pg current_order k =
     (if current_order > k then
        (let current_order = current_order - 1;
             buddy = pg + 2 ^ current_order
         in if buddy \<ge> length pa then None
            else split_block (pa[buddy := (pa ! buddy)\<lparr>next := fp ! current_order\<rparr>])
                   (fp[current_order := Some buddy]) pg current_order k)
      else Some (pa, fp))"
  by pat_completeness auto
termination
  by (relation "measure (\<lambda>(pa, fp, pg, current_order, k). current_order)") auto

declare split_block.simps [simp del]

text \<open>
  \<^verbatim>\<open>buddy_alloc_pages(zone, order)\<close>, from the order \<open>current_order\<close> of its search
  loop on: the pointer returned (\<open>None\<close> for the null pointer) and the new state. The
  outer \<open>None\<close> is an access outside the page array.
\<close>

function alloc_from ::
  "buddy_state \<Rightarrow> nat \<Rightarrow> nat \<Rightarrow> nat \<Rightarrow> (nat option \<times> buddy_state) option" where
  "alloc_from m zone k current_order =
     (if current_order < 12 then
        (let z = zones m ! zone;
             pa = page_array m
         in case free_pages z ! current_order of
              None \<Rightarrow> alloc_from m zone k (current_order + 1)
            | Some pg \<Rightarrow>
                if pg \<ge> length pa then None
                else
                  (case split_block pa ((free_pages z)[current_order := next (pa ! pg)])
                          pg current_order k of
                     None \<Rightarrow> None
                   | Some (pa, fp) \<Rightarrow>
                       (let pa = pa[pg := (pa ! pg)\<lparr>order := of_nat k\<rparr>];
                            pa = pa[pg := (pa ! pg)\<lparr>ref_count := 1\<rparr>];
                            z = z\<lparr>free_pages := fp,
                                  free_pages_count := free_pages_count z - push_bit k 1\<rparr>
                        in Some (Some pg,
                                 m\<lparr>zones := (zones m)[zone := z], page_array := pa\<rparr>))))
      else Some (None, m))"
  by pat_completeness auto
termination
  by (relation "measure (\<lambda>(m, zone, k, current_order). 12 - current_order)") auto

declare alloc_from.simps [simp del]

definition buddy_alloc_pages ::
  "buddy_state \<Rightarrow> nat \<Rightarrow> nat \<Rightarrow> (nat option \<times> buddy_state) option" where
  "buddy_alloc_pages m zone k = alloc_from m zone k k"

subsection \<open>The algorithm as the specification words it\<close>

text \<open>
  The specification's zone has the free lists \<open>free_lists[k]\<close>, each the blocks of
  order \<open>k\<close> that are free, given here by their head frames. Freeing a block of order
  \<open>k\<close> at \<open>frame\<close>: the buddy is the block at \<open>frame XOR 2^k\<close> of the same order;
  while the order is below 11 and the buddy exists (it is a frame of the zone of \<open>n\<close>
  frames), is free and has the same order (it is on \<open>free_lists[k]\<close>), the buddy is
  removed from its free list and the block is promoted one order, the lower frame
  becoming its head; the final block is pushed on the free list of its order.
\<close>

function coalesce_spec ::
  "nat \<Rightarrow> nat list list \<Rightarrow> nat \<Rightarrow> nat \<Rightarrow> nat list list \<times> nat \<times> nat" where
  "coalesce_spec n fl frame k =
     (if k < 11 \<and> frame XOR 2 ^ k < n \<and> frame XOR 2 ^ k \<in> set (fl ! k)
      then coalesce_spec n (fl[k := remove1 (frame XOR 2 ^ k) (fl ! k)])
             (min frame (frame XOR 2 ^ k)) (k + 1)
      else (fl, frame, k))"
  by pat_completeness auto
termination
  by (relation "measure (\<lambda>(n, fl, frame, k). 11 - k)") auto

declare coalesce_spec.simps [simp del]

definition buddy_free_spec :: "nat \<Rightarrow> nat list list \<Rightarrow> nat \<Rightarrow> nat \<Rightarrow> nat list list" where
  "buddy_free_spec n fl frame k =
     (let (fl', head, k') = coalesce_spec n fl frame k
      in fl'[k' := head # fl' ! k'])"

text \<open>
  The free lists a state of the code holds: \<open>chain pa p xs\<close> says that following
  \<^verbatim>\<open>next\<close> from the pointer \<open>p\<close> visits exactly the frames \<open>xs\<close>, all inside the page
  array, and ends in the null pointer; \<open>free_lists m fl\<close> says that the 12 lists of
  \<^verbatim>\<open>ZONE_NORMAL\<close> are the lists \<open>fl\<close>.
\<close>

primrec chain :: "page list \<Rightarrow> nat option \<Rightarrow> nat list \<Rightarrow> bool" where
  "chain pa p [] = (p = None)"
| "chain pa p (x # xs) = (p = Some x \<and> x < length pa \<and> chain pa (next (pa ! x)) xs)"

definition free_lists :: "buddy_state \<Rightarrow> nat list list \<Rightarrow> bool" where
  "free_lists m fl = list_all2 (chain (page_array m)) (free_pages (zones m ! ZONE_NORMAL)) fl"

text \<open>
  The scenario "buddy coalescing" of the specification. \<open>blank_2048\<close> has \<open>2^11\<close>
  page descriptors and the free lists as \<^verbatim>\<open>mm_init\<close> leaves them, zeroed and empty.
  In \<open>zone_2048\<close> these pages are all free as one block of order 11 at frame 0.
  Four pages are allocated, which are the frames 0, 1, 2 and 3, and freed in the order
  1, 0, 3, 2.
\<close>

definition blank_page :: page where
  "blank_page = \<lparr>flags = 0, ref_count = 0, order = 0, next = None\<rparr>"

definition empty_zone :: memory_zone where
  "empty_zone =
     \<lparr>free_pages = replicate 12 None, start_pfn = 0, end_pfn = 0, free_pages_count = 0,
      total_pages = 0\<rparr>"

definition blank_2048 :: buddy_state where
  "blank_2048 =
     \<lparr>zones = [empty_zone, empty_zone\<lparr>end_pfn := 2048, total_pages := 2048\<rparr>, empty_zone],
      page_array = replicate 2048 blank_page\<rparr>"

definition zone_2048 :: buddy_state where
  "zone_2048 =
     \<lparr>zones = [empty_zone,
               empty_zone\<lparr>free_pages := (replicate 12 None)[11 := Some 0], end_pfn := 2048,
                 free_pages_count := 2048, total_pages := 2048\<rparr>,
               empty_zone],
      page_array = (replicate 2048 blank_page)[0 := blank_page\<lparr>order := 11\<rparr>]\<rparr>"

definition alloc_page :: "buddy_state \<Rightarrow> buddy_state" where
  "alloc_page m = snd (the (buddy_alloc_pages m ZONE_NORMAL 0))"

definition free_page :: "nat \<Rightarrow> buddy_state \<Rightarrow> buddy_state" where
  "free_page pfn m = the (buddy_free_pages m pfn 0)"

definition four_allocated :: buddy_state where
  "four_allocated = alloc_page (alloc_page (alloc_page (alloc_page zone_2048)))"

definition four_freed :: buddy_state where
  "four_freed = free_page 2 (free_page 3 (free_page 0 (free_page 1 four_allocated)))"

text \<open>
  Values the properties of the tool speak about: the key the derivation computes from a
  password and a salt, the context \<^verbatim>\<open>aes_init\<close> builds from a key and an IV, the
  header \<^verbatim>\<open>encrypt_file\<close> writes, and the 64 bytes written for an empty input
  with the sample salt and IV.
\<close>

definition derived_key :: "string \<Rightarrow> u8 list \<Rightarrow> u8 list" where
  "derived_key pw s = fold simple_round [0..<1000] (mix_password pw (s @ replicate 16 0))"

definition container_header :: "options \<Rightarrow> u64 \<Rightarrow> u8 list \<Rightarrow> u8 list \<Rightarrow> file_header" where
  "container_header opts st_size s v =
     (let h = (header_init opts st_size)\<lparr>salt := s, file_header.iv := v\<rparr>
      in h\<lparr>header_checksum := calculate_checksum (take (length (header_bytes h) - 4) (header_bytes h))\<rparr>)"

definition expanded_context :: "u8 list \<Rightarrow> u8 list \<Rightarrow> aes_context" where
  "expanded_context k v = the (snd (aes_init (Some k) (Some v)))"

definition container0 :: "u8 list" where
  "container0 =
     [83, 69, 78, 84, 73, 78, 65, 76, 1, 0, 0, 0, 4, 1, 0, 0,
      1, 2, 3, 4, 5, 6, 7, 8, 9, 10, 11, 12, 13, 14, 15, 16,
      17, 18, 19, 20, 21, 22, 23, 24, 25, 26, 27, 28, 29, 30, 31, 32,
      0, 0, 0, 0, 0, 0, 0, 0, 0, 0, 0, 0, 0, 224, 226, 30]"


section \<open>Kernel heap: exhaustion\<close>

lemma unat_plus_no_wrap:
  fixes a b :: u64
  assumes "unat a + unat b < 2 ^ 64"
  shows "unat (a + b) = unat a + unat b"
  using assms by (simp add: unat_word_ariths)

lemma align8_values: "align8 3145728 = 3145728" "align8 13 = 16"
  by (simp_all add: align8_def)

text \<open>
  The kernel's own start shows it: \<^verbatim>\<open>mm_init\<close> asks for 131072 page descriptors of
  24 bytes, 3 MiB, from the early heap of 1 MiB.
\<close>

lemma mm_init_request:
  "drop_bit PAGE_SHIFT (536870912 :: u64) * SIZEOF_PAGE = 3145728"
  by (simp add: PAGE_SHIFT_def SIZEOF_PAGE_def drop_bit_eq_div)

text \<open>
  C2, as stated, fails: on the allocator as the kernel starts with it, a request of
  3 MiB exhausts the early heap of 1 MiB, and \<^verbatim>\<open>kmalloc\<close> does not come back to its
  caller with an error value; it panics. This is the request \<^verbatim>\<open>mm_init\<close> makes for
  its page array, so \<^verbatim>\<open>mm_init\<close> panics too.
\<close>

theorem kmalloc_exhaustion_counterexample:
  "kmalloc heap_at_boot 3145728 = Panic ''Early heap exhausted''
   \<and> mm_init heap_at_boot = Panic ''Early heap exhausted''"
  by (simp add: kmalloc_def mm_init_def mm_init_request early_kmalloc_def heap_at_boot_def
      align8_values EARLY_HEAP_BYTES_def Let_def)

text \<open>
  C2 (amended): exhaustion is fatal inside the allocator; no error value reaches the
  caller. As long as adding the size (rounded to a multiple of 8 by
  \<^verbatim>\<open>(size + 7) & ~7\<close>) to the offset or cursor does not wrap around 64 bits:
  before the allocator is initialised, \<^verbatim>\<open>kmalloc\<close> is \<^verbatim>\<open>early_kmalloc\<close>, which
  panics with "Early heap exhausted" when the request does not fit into what is left of
  the 1 MiB early heap, and otherwise returns the byte at the old offset and advances
  the offset by the rounded size; once it is initialised, a request that would move the
  bump cursor past the end of the 256 MiB window makes \<^verbatim>\<open>kmalloc\<close> panic with
  "Kernel heap exhausted", and every other request returns the old cursor and advances
  the cursor and the used-memory counter by the rounded size.
\<close>

theorem kmalloc_panics_on_exhaustion:
  assumes "unat (if heap_state.initialized m then kernel_heap_ptr m else early_heap_offset m)
             + unat (align8 sz) < 2 ^ 64"
  shows "kmalloc m sz =
     (if heap_state.initialized m then
        (if unat (kernel_heap_ptr m) + unat (align8 sz)
              > unat KERNEL_HEAP_START + unat KERNEL_HEAP_SIZE
         then Panic ''Kernel heap exhausted''
         else Returns (Addr (kernel_heap_ptr m),
                       m\<lparr>kernel_heap_ptr := kernel_heap_ptr m + align8 sz,
                         used_memory := used_memory m + align8 sz\<rparr>))
      else
        (if unat (early_heap_offset m) + unat (align8 sz) > 1024 * 1024
         then Panic ''Early heap exhausted''
         else Returns (EarlyHeap (early_heap_offset m),
                       m\<lparr>early_heap_offset := early_heap_offset m + align8 sz\<rparr>)))"
proof (cases "heap_state.initialized m")
  case True
  with assms have "unat (kernel_heap_ptr m) + unat (align8 sz) < 2 ^ 64" by simp
  then have sum: "unat (kernel_heap_ptr m + align8 sz)
             = unat (kernel_heap_ptr m) + unat (align8 sz)"
    by (rule unat_plus_no_wrap)
  have lim: "unat (KERNEL_HEAP_START + KERNEL_HEAP_SIZE)
             = unat KERNEL_HEAP_START + unat KERNEL_HEAP_SIZE"
    by (simp add: KERNEL_HEAP_START_def KERNEL_HEAP_SIZE_def)
  have cmp: "(kernel_heap_ptr m + align8 sz > KERNEL_HEAP_START + KERNEL_HEAP_SIZE)
             = (unat (kernel_heap_ptr m) + unat (align8 sz)
                > unat KERNEL_HEAP_START + unat KERNEL_HEAP_SIZE)"
    by (simp add: word_less_nat_alt sum lim)
  show ?thesis
    using True by (simp add: kmalloc_def Let_def cmp)
next
  case False
  with assms have "unat (early_heap_offset m) + unat (align8 sz) < 2 ^ 64" by simp
  then have sum: "unat (early_heap_offset m + align8 sz)
             = unat (early_heap_offset m) + unat (align8 sz)"
    by (rule unat_plus_no_wrap)
  have cmp: "(early_heap_offset m + align8 sz > EARLY_HEAP_BYTES)
             = (unat (early_heap_offset m) + unat (align8 sz) > 1024 * 1024)"
    by (simp add: word_less_nat_alt sum EARLY_HEAP_BYTES_def)
  show ?thesis
    using False by (simp add: kmalloc_def early_kmalloc_def Let_def cmp)
qed

theorem kmalloc_panics_on_exhaustion_witness:
  "kmalloc heap_at_boot 3145728 = Panic ''Early heap exhausted''
   \<and> kmalloc heap_at_boot 13 = Returns (EarlyHeap 0, heap_at_boot\<lparr>early_heap_offset := 16\<rparr>)"
proof -
  have c1: "unat (if heap_state.initialized heap_at_boot then kernel_heap_ptr heap_at_boot
                  else early_heap_offset heap_at_boot) + unat (align8 3145728) < 2 ^ 64"
    by (simp add: align8_values heap_at_boot_def)
  have c2: "unat (if heap_state.initialized heap_at_boot then kernel_heap_ptr heap_at_boot
                  else early_heap_offset heap_at_boot) + unat (align8 13) < 2 ^ 64"
    by (simp add: align8_values heap_at_boot_def)
  show ?thesis
    using kmalloc_panics_on_exhaustion [OF c1] kmalloc_panics_on_exhaustion [OF c2]
    by (simp add: align8_values heap_at_boot_def)
qed

section \<open>System calls: zero-length transfers\<close>

lemma find_free_fd_init: "find_free_fd (replicate MAX_OPEN_FILES closed_file) 3 = Some 3"
  by (simp add: find_free_fd.simps MAX_OPEN_FILES_def closed_file_def)

lemma sys_open_init:
  "sys_open ramfs (sys_state_init []) (Some ''/tmp/x'') 0 0 =
    (3, (sys_state_init [])\<lparr>file_table := (replicate MAX_OPEN_FILES closed_file)
          [3 := \<lparr>inode = Some 0, offset = 0, flags = 0, mode = 0, ref_count = 1\<rparr>]\<rparr>)"
  by (simp add: sys_open_def find_free_fd_init sys_state_init_def ramfs_def)

text \<open>
  C6, as stated, fails: on the open descriptor 3, a read of 0 bytes and a write of 0
  bytes both return -14 (\<^verbatim>\<open>EFAULT\<close>), not 0.
\<close>

theorem zero_length_io_counterexample:
  "fst (sys_read ramfs sys_state_one_open 3 0x1000 0) = - 14
   \<and> fst (sys_write ramfs (\<lambda>a. 0) sys_state_one_open 3 0x1000 0) = - 14
   \<and> fst (sys_read ramfs sys_state_one_open 3 0x1000 0) \<noteq> 0
   \<and> fst (sys_write ramfs (\<lambda>a. 0) sys_state_one_open 3 0x1000 0) \<noteq> 0"
  unfolding sys_state_one_open_def sys_open_init
  by (simp add: sys_read_def sys_write_def MAX_OPEN_FILES_def EBADF_def EFAULT_def)

text \<open>
  C6 (amended): zero-length I/O is refused without side effects. For every valid open
  handle (a descriptor below \<^verbatim>\<open>MAX_OPEN_FILES\<close> whose slot holds an inode), whatever
  the buffer address, a read of 0 bytes and a write of 0 bytes both return
  \<^verbatim>\<open>-EFAULT\<close> (-14); the read stores nothing, and the whole state (file table with
  the handle's offset, console, file contents) is unchanged.
\<close>

theorem zero_length_io_is_efault:
  assumes "unat fd < MAX_OPEN_FILES" and "inode (file_table s ! unat fd) \<noteq> None"
  shows "sys_read ops s fd buf 0 = (- EFAULT, [], s)
       \<and> sys_write ops umem s fd buf 0 = (- EFAULT, s)"
  using assms by (auto simp: sys_read_def sys_write_def)

theorem zero_length_io_is_efault_witness:
  "sys_read ramfs sys_state_one_open 3 0x1000 0 = (- 14, [], sys_state_one_open)
   \<and> sys_write ramfs (\<lambda>a. 0) sys_state_one_open 3 0x1000 0 = (- 14, sys_state_one_open)"
proof -
  have a: "unat (3 :: u64) < MAX_OPEN_FILES" by (simp add: MAX_OPEN_FILES_def)
  have b: "inode (file_table sys_state_one_open ! unat (3 :: u64)) \<noteq> None"
    unfolding sys_state_one_open_def sys_open_init by (simp add: MAX_OPEN_FILES_def)
  show ?thesis
    using zero_length_io_is_efault [OF a b, of ramfs "0x1000" "\<lambda>a. 0"]
    by (simp add: EFAULT_def)
qed

section \<open>System calls: descriptors handed out by open\<close>

lemma find_free_fd_Some:
  "find_free_fd tbl i = Some fd \<Longrightarrow> i \<le> fd \<and> fd < MAX_OPEN_FILES \<and> inode (tbl ! fd) = None"
proof (induction tbl i rule: find_free_fd.induct)
  case (1 tbl i)
  show ?case
  proof (cases "i < MAX_OPEN_FILES \<and> inode (tbl ! i) \<noteq> None")
    case True
    with "1.prems" have "find_free_fd tbl (i + 1) = Some fd"
      by (simp add: find_free_fd.simps [of tbl i])
    with "1.IH" True show ?thesis by fastforce
  next
    case False
    with "1.prems" show ?thesis
      by (auto simp: find_free_fd.simps [of tbl i] split: if_splits)
  qed
qed

lemma find_free_fd_None:
  "(\<forall>j. i \<le> j \<and> j < MAX_OPEN_FILES \<longrightarrow> inode (tbl ! j) \<noteq> None) \<Longrightarrow> find_free_fd tbl i = None"
proof (induction tbl i rule: find_free_fd.induct)
  case (1 tbl i)
  show ?case
  proof (cases "i < MAX_OPEN_FILES")
    case True
    with "1.prems" have busy: "inode (tbl ! i) \<noteq> None" by simp
    from "1.prems" have "\<forall>j. i + 1 \<le> j \<and> j < MAX_OPEN_FILES \<longrightarrow> inode (tbl ! j) \<noteq> None"
      by simp
    with "1.IH" True busy have "find_free_fd tbl (i + 1) = None" by blast
    with True busy show ?thesis by (simp add: find_free_fd.simps [of tbl i])
  next
    case False
    then show ?thesis by (simp add: find_free_fd.simps [of tbl i])
  qed
qed

lemma sys_state_full_busy:
  "3 \<le> i \<Longrightarrow> i < MAX_OPEN_FILES \<Longrightarrow> inode (file_table sys_state_full ! i) \<noteq> None"
  by (simp add: sys_state_full_def nth_append open_file_def MAX_OPEN_FILES_def)

text \<open>
  C10: \<^verbatim>\<open>sys_open\<close> never hands out a standard descriptor. Whenever it succeeds (a
  non-negative result), the result is a descriptor in the range
  3..\<^verbatim>\<open>MAX_OPEN_FILES\<close>-1 whose slot was free, and no other slot of the file table
  changes, so descriptors 0, 1 and 2 are never allocated. When no slot at index 3 or
  above is free, an open that names a file (its filename is not the null pointer) fails
  with \<^verbatim>\<open>EMFILE\<close> and changes nothing.
\<close>

theorem sys_open_descriptor_range:
  assumes "sys_open ops s filename fl md = (r, s')"
  shows "(0 \<le> r \<longrightarrow> 3 \<le> r \<and> r < int MAX_OPEN_FILES
            \<and> inode (file_table s ! nat r) = None
            \<and> (\<forall>i. i \<noteq> nat r \<longrightarrow> file_table s' ! i = file_table s ! i))
       \<and> (filename \<noteq> None
            \<and> (\<forall>i. 3 \<le> i \<and> i < MAX_OPEN_FILES \<longrightarrow> inode (file_table s ! i) \<noteq> None)
          \<longrightarrow> r = - EMFILE \<and> s' = s)"
proof (cases filename)
  case None
  with assms show ?thesis by (simp add: sys_open_def EFAULT_def)
next
  case (Some path)
  note named = this
  show ?thesis
  proof (cases "find_free_fd (file_table s) 3")
    case None
    with assms named show ?thesis by (simp add: sys_open_def EMFILE_def)
  next
    case (Some fd)
    note fd = find_free_fd_Some [OF Some]
    from fd have not_full:
      "\<not> (\<forall>i. 3 \<le> i \<and> i < MAX_OPEN_FILES \<longrightarrow> inode (file_table s ! i) \<noteq> None)"
      by auto
    from assms named Some fd have
      "0 \<le> r \<longrightarrow> r = int fd \<and> (\<forall>i. i \<noteq> fd \<longrightarrow> file_table s' ! i = file_table s ! i)"
      by (auto simp: sys_open_def ENOENT_def Let_def split: prod.splits if_splits)
    with fd not_full show ?thesis by auto
  qed
qed

theorem sys_open_descriptor_range_witness:
  "fst (sys_open ramfs (sys_state_init []) (Some ''/tmp/x'') 0 0) = 3
   \<and> inode (file_table (sys_state_init ([] :: u8 list)) ! 3) = None
   \<and> sys_open ramfs sys_state_full (Some ''/tmp/x'') 0 0 = (- 24, sys_state_full)"
proof -
  obtain r s' where full: "sys_open ramfs sys_state_full (Some ''/tmp/x'') 0 0 = (r, s')"
    by (cases "sys_open ramfs sys_state_full (Some ''/tmp/x'') 0 0") blast
  have busy: "\<forall>i. 3 \<le> i \<and> i < MAX_OPEN_FILES \<longrightarrow> inode (file_table sys_state_full ! i) \<noteq> None"
    using sys_state_full_busy by blast
  have "r = - EMFILE \<and> s' = sys_state_full"
    using sys_open_descriptor_range [OF full] busy by simp
  with full have second: "sys_open ramfs sys_state_full (Some ''/tmp/x'') 0 0 = (- 24, sys_state_full)"
    by (simp add: EMFILE_def)
  have first: "inode (file_table (sys_state_init ([] :: u8 list)) ! nat 3) = None"
    using sys_open_descriptor_range [OF sys_open_init] by simp
  show ?thesis
    using first second by (simp add: sys_open_init)
qed

section \<open>Path security: the default policy\<close>

lemma starts_with_prefix: "starts_with s n = prefix n s"
  by (induction s n rule: starts_with.induct) auto

text \<open>\<^verbatim>\<open>strstr\<close> finds the needle exactly when it occurs somewhere in the haystack.\<close>

lemma strstr_sublist: "(strstr h n \<noteq> None) = sublist n h"
proof (induction h)
  case Nil
  then show ?case by simp
next
  case (Cons c cs)
  then show ?case
    by (auto simp: starts_with_prefix sublist_Cons_right)
qed

text \<open>
  C3, as stated, fails: a write by uid 1000 (clearance 4) to \<^verbatim>\<open>/home/system/notes\<close> is
  denied, although the path does not begin with \<^verbatim>\<open>/system/\<close> and contains none of
  the three classified directory names, so the claim's third rule would allow it.
\<close>

theorem check_path_security_counterexample:
  "check_path_security (Some (process_of 1000 4)) ''/home/system/notes'' 0x02 = - 1
   \<and> \<not> prefix ''/system/'' ''/home/system/notes''
   \<and> \<not> sublist ''/classified/'' ''/home/system/notes''
   \<and> \<not> sublist ''/secret/'' ''/home/system/notes''
   \<and> \<not> sublist ''/pentagon/'' ''/home/system/notes''"
  unfolding strstr_sublist [symmetric]
  by (simp add: check_path_security_def process_of_def)

text \<open>
  C3 (amended): the default policy of \<^verbatim>\<open>check_path_security\<close>, for every path,
  operation and caller: (1) any operation on a path containing \<^verbatim>\<open>/classified/\<close>,
  \<^verbatim>\<open>/secret/\<close> or \<^verbatim>\<open>/pentagon/\<close> is denied when the caller's classification is
  below SECRET (2); (2) otherwise a write operation (bit \<^verbatim>\<open>0x02\<close> of the operation) on a
  path that contains \<^verbatim>\<open>/system/\<close> anywhere is denied unless the caller's uid is 0;
  (3) every other request is allowed. Without a current process (kernel context)
  everything is allowed.
\<close>

theorem check_path_security_policy:
  "check_path_security None path operation = 0
   \<and> check_path_security (Some p) path operation =
       (if security_level p < 2
           \<and> (sublist ''/classified/'' path \<or> sublist ''/secret/'' path
              \<or> sublist ''/pentagon/'' path)
        then - 1
        else if operation AND 0x02 \<noteq> 0 \<and> sublist ''/system/'' path \<and> uid p \<noteq> 0
        then - 1
        else 0)"
  unfolding check_path_security_def strstr_sublist by simp

theorem check_path_security_policy_witness:
  "check_path_security (Some (process_of 1000 1)) ''/data/secret/plan'' 0x01 = - 1
   \<and> check_path_security (Some (process_of 1000 2)) ''/data/secret/plan'' 0x01 = 0
   \<and> check_path_security (Some (process_of 1000 4)) ''/system/conf'' 0x02 = - 1
   \<and> check_path_security (Some (process_of 0 4)) ''/system/conf'' 0x02 = 0
   \<and> check_path_security (Some (process_of 1000 0)) ''/home/user/a.txt'' 0x03 = 0"
  using check_path_security_policy [of "''/data/secret/plan''" "0x01" "process_of 1000 1"]
    check_path_security_policy [of "''/data/secret/plan''" "0x01" "process_of 1000 2"]
    check_path_security_policy [of "''/system/conf''" "0x02" "process_of 1000 4"]
    check_path_security_policy [of "''/system/conf''" "0x02" "process_of 0 4"]
    check_path_security_policy [of "''/home/user/a.txt''" "0x03" "process_of 1000 0"]
  unfolding strstr_sublist [symmetric]
  by (simp add: process_of_def)

section \<open>File-transfer tool: key derivation\<close>

lemma length_mix_password: "length (mix_password pw h) = length h"
proof -
  have "length (fold (\<lambda>i h. h[i mod 32 := h ! (i mod 32) XOR of_char (pw ! i)]) is h) = length h"
    for "is"
    by (induction "is" arbitrary: h) simp_all
  then show ?thesis by (simp add: mix_password_def)
qed

lemma length_simple_round: "length (simple_round r h) = length h"
proof -
  have "length (fold (\<lambda>i h. h[i := h ! i XOR h ! ((i + 1) mod 32) XOR (of_nat r AND 0xFF)]) is h)
        = length h" for "is"
    by (induction "is" arbitrary: h) simp_all
  then show ?thesis by (simp add: simple_round_def)
qed

lemma length_simple_rounds: "length (fold simple_round rs h) = length h"
  by (induction rs arbitrary: h) (simp_all add: length_simple_round)

lemma length_derived_key: "length s = 16 \<Longrightarrow> length (derived_key pw s) = 32"
  by (simp add: derived_key_def length_simple_rounds length_mix_password)

lemma derive_key_value:
  assumes "length s = 16" "length junk = 32" "length old = 32"
  shows "derive_key_from_password junk (Some pw) (Some s) (Some old) = (0, Some (derived_key pw s))"
proof -
  have "take 16 (take 16 s @ drop 16 junk) @ replicate 16 0 @ drop 32 (take 16 s @ drop 16 junk)
        = s @ replicate 16 0"
    using assms by simp
  then show ?thesis
    using assms length_derived_key [of s pw]
    by (simp add: derive_key_from_password_def derived_key_def Let_def)
qed

text \<open>
  C9: key derivation depends on nothing but the password and the salt. For every
  password and 16-byte salt there is one 32-byte key that every run returns (with
  return code 0), whatever the local array and the key buffer held before the call.
\<close>

theorem derive_key_deterministic:
  assumes "length s = 16"
  shows "\<exists>k. length k = 32
           \<and> (\<forall>junk old. length junk = 32 \<and> length old = 32
                 \<longrightarrow> derive_key_from_password junk (Some pw) (Some s) (Some old) = (0, Some k))"
  using assms derive_key_value length_derived_key by blast

theorem derive_key_deterministic_witness:
  "\<exists>k. length k = 32
     \<and> derive_key_from_password (replicate 32 0xAA) (Some ''hunter2'') (Some (map of_nat [1..<17]))
          (Some (replicate 32 0)) = (0, Some k)
     \<and> derive_key_from_password (replicate 32 0x55) (Some ''hunter2'') (Some (map of_nat [1..<17]))
          (Some (replicate 32 0xFF)) = (0, Some k)"
proof -
  have len: "length (map of_nat [1..<17] :: u8 list) = 16" by simp
  from derive_key_deterministic [OF len, of "''hunter2''"]
  obtain k where k: "length k = 32"
    and all: "\<And>junk old. length junk = 32 \<and> length old = 32
                 \<Longrightarrow> derive_key_from_password junk (Some ''hunter2'')
                       (Some (map of_nat [1..<17])) (Some old) = (0, Some k)"
    by blast
  from all [of "replicate 32 0xAA" "replicate 32 0"] all [of "replicate 32 0x55" "replicate 32 0xFF"] k
  show ?thesis by auto
qed

section \<open>File-transfer tool: the container header\<close>

lemma generate_random_ok:
  "generate_random d n = (0, bs) \<Longrightarrow> d = Some bs \<and> length bs = n"
  by (auto simp: generate_random_def split: option.splits if_splits)

lemma length_le_bytes: "length (le_bytes n w) = n"
  by (simp add: le_bytes_def)

lemma length_header_bytes:
  "length (magic h) = 8 \<Longrightarrow> length (version h) = 4 \<Longrightarrow> length (salt h) = 16
   \<Longrightarrow> length (file_header.iv h) = 16 \<Longrightarrow> length (header_bytes h) = 64"
  by (simp add: header_bytes_def length_le_bytes)

lemma encrypt_file_success:
  assumes "encrypt_file junk opts w = (0, Some out)"
  shows "\<exists>input st_size s v key ctx body.
           input_contents w = Some input \<and> stat_size w = Some st_size
         \<and> urandom_salt w = Some s \<and> length s = 16
         \<and> urandom_iv w = Some v \<and> length v = 16
         \<and> aes_init key (Some v) = (0, Some ctx)
         \<and> encrypt_chunks ctx True input = (0, body)
         \<and> out = header_bytes (container_header opts st_size s v) @ body"
  using assms
  apply (simp add: encrypt_file_def split: if_splits option.splits)
  apply (clarsimp simp: Let_def SALT_SIZE_def AES_BLOCK_SIZE_def split: prod.splits if_splits)
  apply (auto dest!: generate_random_ok simp: container_header_def Let_def)
  apply blast
  done

lemma header_init_lengths:
  "length (magic (header_init opts n)) = 8" "length (version (header_init opts n)) = 4"
  by (simp_all add: header_init_def)

lemma container_header_fields:
  "magic (container_header opts n s v) = map of_char ''SENTINAL''"
  "version (container_header opts n s v) = [1, 0, 0, 0]"
  "file_header.classification (container_header opts n s v) = options.classification opts"
  "file_header.flags (container_header opts n s v) = 1"
  "reserved (container_header opts n s v) = 0"
  "salt (container_header opts n s v) = s"
  "file_header.iv (container_header opts n s v) = v"
  "original_size (container_header opts n s v) = n"
  "checksum (container_header opts n s v) = 0"
  by (simp_all add: container_header_def header_init_def Let_def)

lemma container_header_checksum:
  assumes "length s = 16" "length v = 16"
  shows "header_checksum (container_header opts n s v)
         = calculate_checksum (take 60 (header_bytes (container_header opts n s v)))"
proof -
  let ?h = "(header_init opts n)\<lparr>salt := s, file_header.iv := v\<rparr>"
  have len: "length (header_bytes ?h) = 64"
    using assms by (simp add: length_header_bytes header_init_def)
  have same: "take 60 (header_bytes (?h\<lparr>header_checksum := c\<rparr>)) = take 60 (header_bytes ?h)" for c
    using assms by (simp add: header_bytes_def header_init_def length_le_bytes)
  show ?thesis
    by (simp add: container_header_def Let_def len same)
qed

lemma length_fold_update:
  assumes "\<And>i st. length (f i st) = length st"
  shows "length (fold f is st) = length st"
  using assms by (induction "is" arbitrary: st) simp_all

lemma length_add_round_key: "length (add_round_key st rk) = length st"
  unfolding add_round_key_def by (rule length_fold_update) (simp add: Let_def)

lemma length_sub_bytes: "length (sub_bytes st) = length st"
  unfolding sub_bytes_def by (rule length_fold_update) simp

lemma length_shift_rows: "length (shift_rows st) = length st"
  by (simp add: shift_rows_def Let_def)

lemma length_mix_columns: "length (mix_columns st) = length st"
  unfolding mix_columns_def by (rule length_fold_update) (simp add: Let_def)

lemma length_aes_main_rounds: "length (aes_main_rounds ctx st) = length st"
  unfolding aes_main_rounds_def
  by (rule length_fold_update)
    (simp add: length_add_round_key length_mix_columns length_shift_rows length_sub_bytes)

lemma aes_encrypt_block_length:
  "aes_encrypt_block ctx p = (0, c) \<Longrightarrow> length c = min (length p) 16"
  by (auto simp: aes_encrypt_block_def Let_def length_add_round_key length_shift_rows
      length_sub_bytes length_aes_main_rounds split: if_splits)

lemma cbc_loop_Nil: "cbc_loop ctx pb [] = (0, [])"
  by (simp add: cbc_loop.simps)

lemma cbc_loop_length:
  "cbc_loop ctx pb pt = (0, c) \<Longrightarrow> length pb = 16 \<Longrightarrow> length pt mod 16 = 0
   \<Longrightarrow> length c = length pt"
proof (induction ctx pb pt arbitrary: c rule: cbc_loop.induct)
  case (1 ctx pb pt)
  show ?case
  proof (cases "pt = []")
    case True
    with "1.prems" show ?thesis by (simp add: cbc_loop_Nil)
  next
    case False
    with "1.prems" have long: "16 \<le> length pt"
      by (cases "length pt < 16") auto
    obtain rc blk where blk:
      "aes_encrypt_block ctx (map2 (XOR) (take AES_BLOCK_SIZE pt) pb) = (rc, blk)"
      by (cases "aes_encrypt_block ctx (map2 (XOR) (take AES_BLOCK_SIZE pt) pb)") blast
    obtain rc' cs where rest: "cbc_loop ctx blk (drop AES_BLOCK_SIZE pt) = (rc', cs)"
      by (cases "cbc_loop ctx blk (drop AES_BLOCK_SIZE pt)") blast
    from "1.prems"(1) False blk rest have rc: "rc = 0" and rc': "rc' = 0" and c: "c = blk @ cs"
      by (auto simp: cbc_loop.simps [of ctx pb pt] Let_def split: if_splits)
    from blk rc long "1.prems"(2) have lblk: "length blk = 16"
      by (auto dest!: aes_encrypt_block_length simp: AES_BLOCK_SIZE_def)
    from "1.prems"(3) long have m: "length (drop AES_BLOCK_SIZE pt) mod 16 = 0"
      by (simp add: AES_BLOCK_SIZE_def) presburger
    from rc have nrc: "\<not> rc \<noteq> 0" by simp
    from rest rc' have rest0: "cbc_loop ctx blk (drop AES_BLOCK_SIZE pt) = (0, cs)" by simp
    have "length cs = length (drop AES_BLOCK_SIZE pt)"
      by (rule "1.IH" [OF False refl refl blk [symmetric] nrc rest0 lblk m])
    with c lblk long show ?thesis by (simp add: AES_BLOCK_SIZE_def)
  qed
qed

lemma aes_init_value: "aes_init (Some k) (Some v) = (0, Some (expanded_context k v))"
  by (simp add: expanded_context_def aes_init_def Let_def)

lemma expanded_context_fields:
  "aes_context.initialized (expanded_context k v)"
  "length v = 16 \<Longrightarrow> aes_context.iv (expanded_context k v) = v"
  by (simp_all add: expanded_context_def aes_init_def aes_context_zero_def Let_def
      AES_BLOCK_SIZE_def)

lemma aes_init_ok:
  "aes_init key (Some v) = (0, Some ctx) \<Longrightarrow> length v = 16
   \<Longrightarrow> aes_context.initialized ctx \<and> aes_context.iv ctx = v"
  by (cases key) (auto simp: aes_init_def aes_context_zero_def Let_def AES_BLOCK_SIZE_def)

lemma aes_encrypt_block_ok:
  "aes_context.initialized ctx \<Longrightarrow> \<exists>c. aes_encrypt_block ctx p = (0, c)"
  by (simp add: aes_encrypt_block_def Let_def)

lemma cbc_loop_ok:
  "aes_context.initialized ctx \<Longrightarrow> \<exists>c. cbc_loop ctx pb pt = (0, c)"
proof (induction "length pt" arbitrary: pb pt rule: less_induct)
  case less
  show ?case
  proof (cases "pt = []")
    case True
    then show ?thesis by (simp add: cbc_loop_Nil)
  next
    case False
    obtain blk where blk:
      "aes_encrypt_block ctx (map2 (XOR) (take AES_BLOCK_SIZE pt) pb) = (0, blk)"
      using aes_encrypt_block_ok [OF less.prems] by blast
    from False have "length (drop AES_BLOCK_SIZE pt) < length pt"
      by (simp add: AES_BLOCK_SIZE_def)
    from less.hyps [OF this less.prems] obtain cs where
      "cbc_loop ctx blk (drop AES_BLOCK_SIZE pt) = (0, cs)" by blast
    with False blk show ?thesis
      by (simp add: cbc_loop.simps [of ctx pb pt])
  qed
qed

lemma round_up_16: "((n + 16 - 1) div 16) * 16 mod 16 = (0::nat)" "n \<le> ((n + 16 - 1) div 16) * 16"
  by simp_all

lemma encrypt_chunks_Nil: "encrypt_chunks ctx wr [] = (0, [])"
  by (simp add: encrypt_chunks.simps)

lemma length_pad_chunk:
  "length (pad_chunk chunk) mod 16 = 0" "length chunk \<le> length (pad_chunk chunk)"
proof -
  let ?p = "((length chunk + 16 - 1) div 16) * 16"
  have "?p mod 16 = 0" "length chunk \<le> ?p" by (rule round_up_16)+
  moreover have "length (pad_chunk chunk) = ?p"
    using \<open>length chunk \<le> ?p\<close>
    by (auto simp: pad_chunk_def Let_def AES_BLOCK_SIZE_def)
  ultimately show "length (pad_chunk chunk) mod 16 = 0"
    "length chunk \<le> length (pad_chunk chunk)" by simp_all
qed

lemma encrypt_chunks_ok:
  "aes_context.initialized ctx \<Longrightarrow> length (aes_context.iv ctx) = 16
   \<Longrightarrow> \<exists>body. encrypt_chunks ctx True input = (0, body) \<and> length body mod 16 = 0
              \<and> length input \<le> length body"
proof (induction "length input" arbitrary: input rule: less_induct)
  case less
  show ?case
  proof (cases "input = []")
    case True
    then show ?thesis by (simp add: encrypt_chunks_Nil)
  next
    case False
    define buffer where "buffer = pad_chunk (take BUFFER_SIZE input)"
    have lb: "length buffer mod 16 = 0" "length (take BUFFER_SIZE input) \<le> length buffer"
      unfolding buffer_def by (rule length_pad_chunk)+
    obtain c where c: "cbc_loop ctx (aes_context.iv ctx) buffer = (0, c)"
      using cbc_loop_ok [OF less.prems(1)] by blast
    from cbc_loop_length [OF c less.prems(2) lb(1)] have lc: "length c = length buffer" .
    from c lb have enc: "aes_encrypt_cbc ctx buffer = (0, c)"
      by (simp add: aes_encrypt_cbc_def AES_BLOCK_SIZE_def)
    from False have "length (drop BUFFER_SIZE input) < length input"
      by (simp add: BUFFER_SIZE_def)
    from less.hyps [OF this less.prems] obtain more where more:
      "encrypt_chunks ctx True (drop BUFFER_SIZE input) = (0, more)"
      "length more mod 16 = 0" "length (drop BUFFER_SIZE input) \<le> length more"
      by (elim exE conjE)
    have r1: "encrypt_chunks ctx True input = (0, c @ more)"
      using False enc more(1)
      by (simp add: encrypt_chunks.simps [of ctx True input] buffer_def [symmetric])
    have r2: "length (c @ more) mod 16 = 0"
      using lc lb(1) more(2) by (simp add: mod_add_eq [symmetric]) 
    have r3: "length input \<le> length (c @ more)"
    proof -
      have "length (take BUFFER_SIZE input) + length (drop BUFFER_SIZE input) = length input"
        by simp
      with lc lb(2) more(3) show ?thesis
        unfolding length_append by linarith
    qed
    show ?thesis by (intro exI [of _ "c @ more"] conjI r1 r2 r3)
  qed
qed

lemma encrypt_file_returns:
  assumes "source_system opts \<noteq> None" "dest_system opts \<noteq> None"
    and "options.classification opts \<le> user_clearance opts"
    and "password opts = Some pw" and "length junk = 32"
    and "length s = 16" "length v = 16"
  shows "\<exists>body. encrypt_file junk opts (world_with input s v)
           = (0, Some (header_bytes (container_header opts (of_nat (length input)) s v) @ body))
         \<and> length body mod 16 = 0 \<and> length input \<le> length body"
proof -
  let ?ctx = "expanded_context (derived_key pw s) v"
  have ctx: "aes_context.initialized ?ctx" "length (aes_context.iv ?ctx) = 16"
    using assms by (simp_all add: expanded_context_fields)
  from encrypt_chunks_ok [OF ctx, of input] obtain body where body:
    "encrypt_chunks ?ctx True input = (0, body)" "length body mod 16 = 0"
    "length input \<le> length body"
    by (elim exE conjE)
  have key: "derive_key_from_password junk (Some pw) (Some s) (Some (replicate AES_KEY_SIZE 0))
             = (0, Some (derived_key pw s))"
    using assms by (simp add: derive_key_value AES_KEY_SIZE_def)
  have run: "encrypt_file junk opts (world_with input s v)
        = (0, Some (header_bytes (container_header opts (of_nat (length input)) s v) @ body))"
    using assms body(1)
    by (simp add: encrypt_file_def world_with_def verify_security_clearance_def
        generate_random_def SALT_SIZE_def AES_BLOCK_SIZE_def key aes_init_value
        container_header_def Let_def)
  show ?thesis by (intro exI [of _ body] conjI run body(2) body(3))
qed

lemma le_bytes_zero: "le_bytes 2 (0 :: u16) = [0, 0]" "le_bytes 4 (0 :: u32) = [0, 0, 0, 0]"
  by code_simp+

lemma header0: "header_bytes (container_header opts_encrypt 0 salt0 iv0) = container0"
  by code_simp

lemma container0_checksums:
  "calculate_checksum (take 60 container0) = 518184960"
  "calculate_checksum (take 56 container0) = 4058918400"
  "le_bytes 4 (518184960 :: u32) = [0, 224, 226, 30]"
  "le_bytes 4 (4058918400 :: u32) = [0, 46, 238, 241]"
  by code_simp+

lemma encrypt_file_empty:
  assumes "source_system opts \<noteq> None" "dest_system opts \<noteq> None"
    and "options.classification opts \<le> user_clearance opts"
    and "password opts = Some pw" and "length junk = 32"
    and "length s = 16" "length v = 16"
  shows "encrypt_file junk opts (world_with [] s v)
           = (0, Some (header_bytes (container_header opts 0 s v)))"
proof -
  have key: "derive_key_from_password junk (Some pw) (Some s) (Some (replicate AES_KEY_SIZE 0))
             = (0, Some (derived_key pw s))"
    using assms by (simp add: derive_key_value AES_KEY_SIZE_def)
  show ?thesis
    using assms
    by (simp add: encrypt_file_def world_with_def verify_security_clearance_def
        generate_random_def SALT_SIZE_def AES_BLOCK_SIZE_def key aes_init_value
        container_header_def Let_def encrypt_chunks_Nil)
qed

text \<open>
  C8, as stated, fails: the container written for an empty input (no ciphertext at
  all) is 64 bytes long, not 56, and its last four bytes, the header checksum, are the
  checksum of bytes 0..59, which differs from the checksum of bytes 0..55.
\<close>

theorem container_layout_counterexample:
  "encrypt_file junk0 opts_encrypt (world_with [] salt0 iv0) = (0, Some container0)
   \<and> length container0 = 64
   \<and> drop 60 container0 = le_bytes 4 (calculate_checksum (take 60 container0))
   \<and> drop 60 container0 \<noteq> le_bytes 4 (calculate_checksum (take 56 container0))"
proof -
  have a: "encrypt_file junk0 opts_encrypt (world_with [] salt0 iv0) = (0, Some container0)"
    unfolding header0 [symmetric]
    by (rule encrypt_file_empty [where pw = "''hunter2''"])
      (simp_all add: opts_encrypt_def junk0_def salt0_def iv0_def)
  have b: "length container0 = 64
   \<and> drop 60 container0 = le_bytes 4 (calculate_checksum (take 60 container0))
   \<and> drop 60 container0 \<noteq> le_bytes 4 (calculate_checksum (take 56 container0))"
    unfolding container0_checksums by (simp add: container0_def)
  show ?thesis by (rule conjI [OF a b])
qed

text \<open>
  C8 (amended): whenever \<^verbatim>\<open>encrypt_file\<close> succeeds, its output begins with a fixed
  64-byte header: the magic "SENTINAL" (bytes 0..7), the version 1.0.0.0 (8..11), the
  classification (12), the flags, equal to 1 (13), two reserved zero bytes (14..15), the
  salt (16..31), the IV (32..47), the original length in little-endian (48..55), the
  payload checksum, which is always 0 (56..59), and the header checksum (60..63), which
  covers exactly bytes 0..59. The ciphertext follows at offset 64, and its length is a
  multiple of 16.
\<close>

theorem container_layout:
  assumes "encrypt_file junk opts w = (0, Some out)"
  shows "\<exists>n s v body.
           stat_size w = Some n \<and> urandom_salt w = Some s \<and> urandom_iv w = Some v
         \<and> length s = 16 \<and> length v = 16
         \<and> out = map of_char ''SENTINAL'' @ [1, 0, 0, 0] @ [options.classification opts, 1]
                 @ [0, 0] @ s @ v @ le_bytes 8 n @ [0, 0, 0, 0]
                 @ le_bytes 4 (calculate_checksum (take 60 out)) @ body
         \<and> length body mod 16 = 0"
proof -
  from encrypt_file_success [OF assms] obtain input n s v key ctx body where run:
    "input_contents w = Some input" "stat_size w = Some n"
    "urandom_salt w = Some s" "length s = 16" "urandom_iv w = Some v" "length v = 16"
    "aes_init key (Some v) = (0, Some ctx)" "encrypt_chunks ctx True input = (0, body)"
    "out = header_bytes (container_header opts n s v) @ body"
    by (elim exE conjE)
  let ?h = "container_header opts n s v"
  have len: "length (header_bytes ?h) = 64"
    using run(4,6) by (simp add: length_header_bytes container_header_fields)
  have "take 60 out = take 60 (header_bytes ?h)"
    using len run(9) by simp
  with container_header_checksum [OF run(4,6), of opts n]
  have sum: "header_checksum ?h = calculate_checksum (take 60 out)" by simp
  have bytes: "header_bytes ?h = map of_char ''SENTINAL'' @ [1, 0, 0, 0]
                 @ [options.classification opts, 1]
                 @ [0, 0] @ s @ v @ le_bytes 8 n @ [0, 0, 0, 0]
                 @ le_bytes 4 (header_checksum ?h)"
    unfolding header_bytes_def container_header_fields
    by (simp add: le_bytes_zero)
  have out_eq: "out = map of_char ''SENTINAL'' @ [1, 0, 0, 0] @ [options.classification opts, 1]
                 @ [0, 0] @ s @ v @ le_bytes 8 n @ [0, 0, 0, 0]
                 @ le_bytes 4 (calculate_checksum (take 60 out)) @ body"
    unfolding sum [symmetric] by (subst run(9)) (simp add: bytes)
  from aes_init_ok [OF run(7,6)] have ctx: "aes_context.initialized ctx"
    "length (aes_context.iv ctx) = 16" using run(6) by simp_all
  from encrypt_chunks_ok [OF ctx, of input] obtain body' where
    "encrypt_chunks ctx True input = (0, body')" "length body' mod 16 = 0"
    by (elim exE conjE)
  with run(8) have body: "length body mod 16 = 0" by simp
  show ?thesis
    by (intro exI [of _ n] exI [of _ s] exI [of _ v] exI [of _ body] conjI run(2-6) body out_eq)
qed

lemma run0: "encrypt_file junk0 opts_encrypt (world_with [] salt0 iv0) = (0, Some container0)"
  unfolding header0 [symmetric]
  by (rule encrypt_file_empty [where pw = "''hunter2''"])
    (simp_all add: opts_encrypt_def junk0_def salt0_def iv0_def)

theorem container_layout_witness:
  "\<exists>n s v body.
      stat_size (world_with [] salt0 iv0) = Some n
    \<and> urandom_salt (world_with [] salt0 iv0) = Some s
    \<and> urandom_iv (world_with [] salt0 iv0) = Some v
    \<and> length s = 16 \<and> length v = 16
    \<and> container0 = map of_char ''SENTINAL'' @ [1, 0, 0, 0]
         @ [options.classification opts_encrypt, 1]
         @ [0, 0] @ s @ v @ le_bytes 8 n @ [0, 0, 0, 0]
         @ le_bytes 4 (calculate_checksum (take 60 container0)) @ body
    \<and> length body mod 16 = 0"
  by (rule container_layout [OF run0])


section \<open>File-transfer tool: decrypting\<close>

lemma main_run_decrypt: "\<not> encrypt_mode opts \<Longrightarrow> main_run junk opts w = (1, None)"
  by (simp add: main_run_def Let_def)

lemma main_run_encrypt:
  assumes "encrypt_mode opts" "\<not> decrypt_mode opts" "input_file opts \<noteq> None"
    "output_file opts \<noteq> None" "password opts \<noteq> None"
  shows "main_run junk opts w =
           (if fst (encrypt_file junk opts w) \<noteq> 0 then 1 else 0, snd (encrypt_file junk opts w))"
  using assms by (auto simp: main_run_def Let_def split: prod.splits)

text \<open>
  C7, as stated, fails: the container of the empty plaintext, and the container of
  "attack at dawn", both encrypted successfully, are not decrypted by the same password:
  the run in decrypt mode exits with status 1 and writes no output.
\<close>

theorem encrypt_then_decrypt_counterexample:
  "main_run junk0 opts_encrypt (world_with [] salt0 iv0) = (0, Some container0)
   \<and> main_run junk0 opts_decrypt (world_with container0 salt0 iv0) = (1, None)
   \<and> fst (main_run junk0 opts_encrypt (world_with (map of_char ''attack at dawn'') salt0 iv0)) = 0
   \<and> main_run junk0 opts_decrypt
        (world_with (the (snd (main_run junk0 opts_encrypt
            (world_with (map of_char ''attack at dawn'') salt0 iv0)))) salt0 iv0) = (1, None)"
proof -
  have enc: "encrypt_mode opts_encrypt" "\<not> decrypt_mode opts_encrypt"
    "input_file opts_encrypt \<noteq> None" "output_file opts_encrypt \<noteq> None"
    "password opts_encrypt \<noteq> None"
    by (simp_all add: opts_encrypt_def)
  have dec: "\<not> encrypt_mode opts_decrypt"
    by (simp add: opts_decrypt_def opts_encrypt_def)
  have a: "main_run junk0 opts_encrypt (world_with [] salt0 iv0) = (0, Some container0)"
    by (simp add: main_run_encrypt [OF enc] run0)
  obtain body where "encrypt_file junk0 opts_encrypt (world_with (map of_char ''attack at dawn'') salt0 iv0)
      = (0, Some (header_bytes (container_header opts_encrypt
           (of_nat (length (map of_char ''attack at dawn'' :: u8 list))) salt0 iv0) @ body))"
    using encrypt_file_returns [of opts_encrypt "''hunter2''" junk0 salt0 iv0
        "map of_char ''attack at dawn''"]
    by (auto simp: opts_encrypt_def junk0_def salt0_def iv0_def)
  then have b: "fst (main_run junk0 opts_encrypt (world_with (map of_char ''attack at dawn'') salt0 iv0)) = 0"
    by (simp add: main_run_encrypt [OF enc])
  show ?thesis
    by (intro conjI a b main_run_decrypt [OF dec])
qed

text \<open>
  C7 (amended): only the encrypting half exists. For every plaintext (the empty one
  included), password, 16-byte salt and 16-byte IV, encrypting succeeds and writes a
  container (the 64-byte header, then at least as many bytes as the plaintext); running
  the tool in decrypt mode on that container with the same password, in any
  environment, exits with status 1 and writes no output: decrypt mode is not
  implemented.
\<close>

theorem decrypt_not_implemented:
  assumes "length s = 16" and "length v = 16" and "length junk = 32"
  shows "\<exists>c. main_run junk (opts_encrypt\<lparr>password := Some pw\<rparr>) (world_with plaintext s v)
               = (0, Some c)
           \<and> length plaintext + 64 \<le> length c
           \<and> (\<forall>junk' w. main_run junk' (opts_decrypt\<lparr>password := Some pw\<rparr>)
                           (w\<lparr>input_contents := Some c\<rparr>) = (1, None))"
proof -
  let ?o = "opts_encrypt\<lparr>password := Some pw\<rparr>"
  have enc: "encrypt_mode ?o" "\<not> decrypt_mode ?o"
    "input_file ?o \<noteq> None" "output_file ?o \<noteq> None" "password ?o \<noteq> None"
    by (simp_all add: opts_encrypt_def)
  have dec: "\<not> encrypt_mode (opts_decrypt\<lparr>password := Some pw\<rparr>)"
    by (simp add: opts_decrypt_def opts_encrypt_def)
  let ?h = "header_bytes (container_header ?o (of_nat (length plaintext)) s v)"
  obtain body where run: "encrypt_file junk ?o (world_with plaintext s v) = (0, Some (?h @ body))"
    and len: "length plaintext \<le> length body"
    using encrypt_file_returns [of ?o pw junk s v plaintext] assms
    by (auto simp: opts_encrypt_def)
  have h64: "length ?h = 64"
    using assms by (simp add: length_header_bytes container_header_fields)
  have a: "main_run junk ?o (world_with plaintext s v) = (0, Some (?h @ body))"
    by (simp add: main_run_encrypt [OF enc] run)
  have b: "length plaintext + 64 \<le> length (?h @ body)"
    using len h64 by simp
  have c: "\<forall>junk' w. main_run junk' (opts_decrypt\<lparr>password := Some pw\<rparr>)
                           (w\<lparr>input_contents := Some (?h @ body)\<rparr>) = (1, None)"
    by (simp add: main_run_decrypt [OF dec])
  show ?thesis
    by (intro exI [of _ "?h @ body"] conjI a b c)
qed

theorem decrypt_not_implemented_witness:
  "\<exists>c. main_run junk0 (opts_encrypt\<lparr>password := Some ''hunter2''\<rparr>)
          (world_with (map of_char ''attack at dawn'') salt0 iv0) = (0, Some c)
       \<and> length (map of_char ''attack at dawn'' :: u8 list) + 64 \<le> length c
       \<and> (\<forall>junk' w. main_run junk' (opts_decrypt\<lparr>password := Some ''hunter2''\<rparr>)
                       (w\<lparr>input_contents := Some c\<rparr>) = (1, None))"
proof -
  have l: "length salt0 = 16" "length iv0 = 16" "length junk0 = 32"
    by (simp_all add: salt0_def iv0_def junk0_def)
  show ?thesis by (rule decrypt_not_implemented [OF l])
qed

section \<open>Process management: order of the ready queue\<close>

lemma set_next_fields [simp]:
  "process.next (set_next h a v b) = (if b = a then v else process.next (h b))"
  "process.prev (set_next h a v b) = process.prev (h b)"
  "process.priority (set_next h a v b) = process.priority (h b)"
  "process.state (set_next h a v b) = process.state (h b)"
  by (simp_all add: set_next_def)

lemma set_prev_fields [simp]:
  "process.next (set_prev h a v b) = process.next (h b)"
  "process.prev (set_prev h a v b) = (if b = a then v else process.prev (h b))"
  "process.priority (set_prev h a v b) = process.priority (h b)"
  "process.state (set_prev h a v b) = process.state (h b)"
  by (simp_all add: set_prev_def)

lemma next_chain_frame:
  "(\<forall>x \<in> set xs. process.next (h' x) = process.next (h x))
   \<Longrightarrow> next_chain h p xs \<Longrightarrow> next_chain h' p xs"
  by (induction xs arbitrary: p) auto

lemma next_chain_unique: "next_chain h p xs \<Longrightarrow> next_chain h p ys \<Longrightarrow> xs = ys"
proof (induction xs arbitrary: p ys)
  case Nil
  then show ?case by (cases ys) auto
next
  case (Cons x xs)
  then show ?case by (cases ys) auto
qed

lemma next_chain_suffix:
  "next_chain h p (as @ x # bs) \<Longrightarrow> next_chain h (process.next (h x)) bs"
  by (induction as arbitrary: p) auto

text \<open>A queue that ends in the null pointer visits no structure twice.\<close>

lemma next_chain_notin: "next_chain h (process.next (h x)) xs \<Longrightarrow> x \<notin> set xs"
proof
  assume c: "next_chain h (process.next (h x)) xs" and "x \<in> set xs"
  then obtain as bs where split: "xs = as @ x # bs"
    by (auto simp: in_set_conv_decomp)
  with c have "next_chain h (process.next (h x)) bs" by (simp add: next_chain_suffix)
  with c have "xs = bs" by (rule next_chain_unique)
  with split show False by simp
qed

text \<open>The search loop stops at the last structure whose priority is not below the new one.\<close>

lemma queue_walk_result:
  "next_chain h (Some c) (c # rest)
   \<Longrightarrow> queue_walk h pri c = Some (last (c # takeWhile (\<lambda>q. process.priority (h q) \<ge> pri) rest))"
proof (induction rest arbitrary: c)
  case Nil
  then show ?case by (simp add: queue_walk.simps)
next
  case (Cons n rest)
  from Cons.prems have nx: "process.next (h c) = Some n"
    and tail: "next_chain h (Some n) (n # rest)"
    by auto
  show ?case
  proof (cases "process.priority (h n) \<ge> pri")
    case True
    with nx have "queue_walk h pri c = queue_walk h pri n"
      by (subst queue_walk.simps) simp
    with Cons.IH [OF tail] True show ?thesis by simp
  next
    case False
    with nx show ?thesis by (subst queue_walk.simps) simp
  qed
qed

text \<open>Linking a new structure in front of a queue.\<close>

lemma insert_at_head:
  assumes q: "next_chain h rq xs" and fresh: "p \<notin> set xs"
    and nx: "\<And>y. process.next (h' y) = (if y = p then rq else process.next (h y))"
  shows "next_chain h' (Some p) (p # xs)"
proof -
  have "next_chain h' rq xs"
    using _ q by (rule next_chain_frame) (use fresh in \<open>auto simp: nx\<close>)
  then show ?thesis by (simp add: nx)
qed

text \<open>Linking a new structure behind the member \<open>c\<close> of a queue.\<close>

lemma insert_after:
  assumes q: "next_chain h rq (as @ c # bs)" and fresh: "p \<notin> set (as @ c # bs)"
    and nx: "\<And>y. process.next (h' y) =
        (if y = c then Some p else if y = p then process.next (h c) else process.next (h y))"
  shows "next_chain h' rq (as @ c # p # bs)"
  using q fresh
proof (induction as arbitrary: rq)
  case Nil
  then have rq: "rq = Some c" and tail: "next_chain h (process.next (h c)) bs"
    and pc: "p \<noteq> c" and pbs: "p \<notin> set bs"
    by simp_all
  from tail have cbs: "c \<notin> set bs" by (rule next_chain_notin)
  have "next_chain h' (process.next (h c)) bs"
    using _ tail by (rule next_chain_frame) (use cbs pbs in \<open>auto simp: nx\<close>)
  with rq pc show ?case by (simp add: nx)
next
  case (Cons a as)
  then have rq: "rq = Some a" and tail: "next_chain h (process.next (h a)) (as @ c # bs)"
    and pa: "p \<noteq> a" and fresh': "p \<notin> set (as @ c # bs)"
    by simp_all
  from tail have "a \<notin> set (as @ c # bs)" by (rule next_chain_notin)
  then have ac: "a \<noteq> c" by simp
  from Cons.IH [OF tail fresh'] have "next_chain h' (process.next (h a)) (as @ c # p # bs)" .
  with rq pa ac show ?case by (simp add: nx)
qed

lemma priority_sorted_cong:
  "(\<And>x. process.priority (h' x) = process.priority (h x))
   \<Longrightarrow> priority_sorted h' xs = priority_sorted h xs"
  by (simp add: priority_sorted_def)

lemma priority_sorted_insert:
  fixes p :: proc_ref
  assumes "priority_sorted h xs"
  defines "P \<equiv> (\<lambda>q. process.priority (h q) \<ge> process.priority (h p))"
  shows "priority_sorted h (takeWhile P xs @ p # dropWhile P xs)
       \<and> (\<forall>q\<in>set (takeWhile P xs). process.priority (h q) \<ge> process.priority (h p))
       \<and> (\<forall>q\<in>set (dropWhile P xs). process.priority (h q) < process.priority (h p))"
proof -
  have before: "\<forall>q\<in>set (takeWhile P xs). process.priority (h q) \<ge> process.priority (h p)"
    by (auto dest: set_takeWhileD simp: P_def)
  have after: "\<forall>q\<in>set (dropWhile P xs). process.priority (h q) < process.priority (h p)"
  proof (cases "dropWhile P xs")
    case Nil
    show ?thesis unfolding Nil by simp
  next
    case (Cons y ys)
    then have "\<not> P y" by (metis hd_dropWhile list.sel(1) list.distinct(1))
    then have y: "process.priority (h y) < process.priority (h p)" by (simp add: P_def)
    have "sorted_wrt (\<lambda>a b. process.priority (h a) \<ge> process.priority (h b)) (takeWhile P xs @ dropWhile P xs)"
      using assms(1) by (simp add: priority_sorted_def)
    then have "sorted_wrt (\<lambda>a b. process.priority (h a) \<ge> process.priority (h b)) (y # ys)"
      unfolding sorted_wrt_append Cons by blast
    then have "\<forall>q\<in>set ys. process.priority (h q) \<le> process.priority (h y)" by simp
    with y Cons show ?thesis by auto
  qed
  have "sorted_wrt (\<lambda>a b. process.priority (h a) \<ge> process.priority (h b)) (takeWhile P xs @ dropWhile P xs)"
    using assms(1) by (simp add: priority_sorted_def)
  then have parts: "sorted_wrt (\<lambda>a b. process.priority (h a) \<ge> process.priority (h b)) (takeWhile P xs)"
    "sorted_wrt (\<lambda>a b. process.priority (h a) \<ge> process.priority (h b)) (dropWhile P xs)"
    "\<forall>a\<in>set (takeWhile P xs). \<forall>b\<in>set (dropWhile P xs). process.priority (h a) \<ge> process.priority (h b)"
    unfolding sorted_wrt_append by blast+
  have "priority_sorted h (takeWhile P xs @ p # dropWhile P xs)"
    unfolding priority_sorted_def sorted_wrt_append
    using parts before after by (auto intro: less_imp_le)
  with before after show ?thesis by blast
qed

text \<open>What \<^verbatim>\<open>add_to_ready_queue\<close> does to a queue that ends in the null pointer.\<close>

lemma add_to_ready_queue_list:
  assumes rl: "ready_list s xs" and fresh: "p \<notin> set xs"
    and ready: "process.state (heap s p) = PROCESS_READY"
  defines "P \<equiv> (\<lambda>q. process.priority (heap s q) \<ge> process.priority (heap s p))"
  shows "\<exists>s'. add_to_ready_queue s (Some p) = Some s'
           \<and> ready_list s' (takeWhile P xs @ p # dropWhile P xs)
           \<and> (\<forall>q. process.priority (heap s' q) = process.priority (heap s q))"
proof (cases "pm_state.ready_queue s = None
        \<or> process.priority (heap s p) > process.priority (heap s (the (pm_state.ready_queue s)))")
  case True
  have tw: "takeWhile P xs = []" "dropWhile P xs = xs"
    using True rl by (cases xs; auto simp: ready_list_def P_def)+
  from rl have q: "next_chain (heap s) (pm_state.ready_queue s) xs"
    by (simp add: ready_list_def)
  define s' where "s' = the (add_to_ready_queue s (Some p))"
  have unf: "add_to_ready_queue s (Some p) =
      Some (s\<lparr>heap := set_prev (case pm_state.ready_queue s of
                                   None \<Rightarrow> set_next (heap s) p (pm_state.ready_queue s)
                                 | Some q \<Rightarrow> set_prev (set_next (heap s) p (pm_state.ready_queue s))
                                              q (Some p)) p None,
               pm_state.ready_queue := Some p\<rparr>)"
    unfolding add_to_ready_queue_def Let_def using True ready by simp
  have s': "add_to_ready_queue s (Some p) = Some s'"
    by (simp add: s'_def unf)
  have rq: "pm_state.ready_queue s' = Some p"
    by (simp add: s'_def unf)
  have nx: "process.next (heap s' y)
                 = (if y = p then pm_state.ready_queue s else process.next (heap s y))" for y
    by (simp add: s'_def unf split: option.splits)
  have pri: "process.priority (heap s' y) = process.priority (heap s y)" for y
    by (simp add: s'_def unf split: option.splits)
  have "next_chain (heap s') (Some p) (p # xs)"
    using q fresh nx by (rule insert_at_head)
  then have "ready_list s' (takeWhile P xs @ p # dropWhile P xs)"
    by (simp add: ready_list_def rq tw)
  with s' pri show ?thesis by (intro exI [of _ s']) simp
next
  case False
  with rl obtain c rest where xs: "xs = c # rest" and rq: "pm_state.ready_queue s = Some c"
    and cp: "P c"
    by (cases xs) (auto simp: ready_list_def P_def)
  from rl xs have q: "next_chain (heap s) (Some c) (c # rest)"
    by (simp add: ready_list_def rq)
  define cur where "cur = last (c # takeWhile P rest)"
  have walk: "queue_walk (heap s) (process.priority (heap s p)) c = Some cur"
    using queue_walk_result [OF q] by (simp add: cur_def P_def)
  have tw: "takeWhile P xs = butlast (c # takeWhile P rest) @ [cur]"
    using cp by (simp add: xs cur_def del: butlast.simps last.simps)
  have split: "xs = butlast (c # takeWhile P rest) @ cur # dropWhile P xs"
    using takeWhile_dropWhile_id [of P xs] tw by simp
  from rl have q': "next_chain (heap s) (pm_state.ready_queue s)
      (butlast (c # takeWhile P rest) @ cur # dropWhile P xs)"
    using split by (simp add: ready_list_def)
  from fresh split have fresh': "p \<notin> set (butlast (c # takeWhile P rest) @ cur # dropWhile P xs)"
    by simp
  from fresh' have pc: "p \<noteq> cur" by simp
  define s' where "s' = the (add_to_ready_queue s (Some p))"
  let ?h1 = "set_next (heap s) p (process.next (heap s cur))"
  have unf: "add_to_ready_queue s (Some p) =
      Some (s\<lparr>heap := set_next (set_prev (case process.next (?h1 cur) of
                                             None \<Rightarrow> ?h1
                                           | Some n \<Rightarrow> set_prev ?h1 n (Some p))
                                   p (Some cur)) cur (Some p)\<rparr>)"
    unfolding add_to_ready_queue_def Let_def using False ready by (simp add: rq walk)
  have s': "add_to_ready_queue s (Some p) = Some s'"
    by (simp add: s'_def unf)
  have rq': "pm_state.ready_queue s' = pm_state.ready_queue s"
    by (simp add: s'_def unf)
  have nx: "process.next (heap s' y)
                 = (if y = cur then Some p else if y = p then process.next (heap s cur)
                    else process.next (heap s y))" for y
    using pc by (simp add: s'_def unf split: option.splits)
  have pri: "process.priority (heap s' y) = process.priority (heap s y)" for y
    by (simp add: s'_def unf split: option.splits)
  have "next_chain (heap s') (pm_state.ready_queue s)
      (butlast (c # takeWhile P rest) @ cur # p # dropWhile P xs)"
    using q' fresh' nx by (rule insert_after)
  then have "ready_list s' (takeWhile P xs @ p # dropWhile P xs)"
    by (simp add: ready_list_def rq' tw)
  with s' pri show ?thesis by (intro exI [of _ s']) simp
qed

lemma priority_sorted_cong_set:
  "(\<forall>x\<in>set xs. process.priority (h' x) = process.priority (h x))
   \<Longrightarrow> priority_sorted h' xs = priority_sorted h xs"
  unfolding priority_sorted_def by (induction xs) auto

text \<open>
  What the first part of \<^verbatim>\<open>process_create\<close> leaves for \<^verbatim>\<open>add_to_ready_queue\<close>.
\<close>

lemma process_linked_fields:
  "process.next (heap (process_linked s p) y)
     = (if y = p then pm_state.process_list s else process.next (heap s y))"
  "process.priority (heap (process_linked s p) y)
     = (if y = p then 20 else process.priority (heap s y))"
  "process.state (heap (process_linked s p) p) = PROCESS_READY"
  "pm_state.ready_queue (process_linked s p) = pm_state.ready_queue s"
  by (simp_all add: process_linked_def Let_def split: option.splits)

lemma process_linked_list:
  assumes "ready_list s xs" and "priority_sorted (heap s) xs" and "p \<notin> set xs"
  shows "ready_list (process_linked s p) xs"
    and "priority_sorted (heap (process_linked s p)) xs"
proof -
  have "next_chain (heap (process_linked s p)) (pm_state.ready_queue s) xs"
    using _ assms(1) [unfolded ready_list_def]
    by (rule next_chain_frame) (use assms(3) in \<open>auto simp: process_linked_fields\<close>)
  then show "ready_list (process_linked s p) xs"
    by (simp add: ready_list_def process_linked_fields)
  have "priority_sorted (heap (process_linked s p)) xs = priority_sorted (heap s) xs"
    by (rule priority_sorted_cong_set) (use assms(3) in \<open>auto simp: process_linked_fields\<close>)
  with assms(2) show "priority_sorted (heap (process_linked s p)) xs" by simp
qed

lemma add_to_ready_queue_order:
  assumes "ready_list s xs" and "priority_sorted (heap s) xs"
    and "p \<notin> set xs" and "process.state (heap s p) = PROCESS_READY"
  shows "\<exists>s' as bs. add_to_ready_queue s (Some p) = Some s' \<and> xs = as @ bs
               \<and> ready_list s' (as @ p # bs) \<and> priority_sorted (heap s') (as @ p # bs)
               \<and> (\<forall>q\<in>set as. process.priority (heap s q) \<ge> process.priority (heap s p))
               \<and> (\<forall>q\<in>set bs. process.priority (heap s q) < process.priority (heap s p))"
proof -
  define P where "P = (\<lambda>q. process.priority (heap s q) \<ge> process.priority (heap s p))"
  from add_to_ready_queue_list [OF assms(1) assms(3) assms(4)]
  obtain s' where s': "add_to_ready_queue s (Some p) = Some s'"
    and rl: "ready_list s' (takeWhile P xs @ p # dropWhile P xs)"
    and pri: "\<forall>q. process.priority (heap s' q) = process.priority (heap s q)"
    unfolding P_def by blast
  from priority_sorted_insert [OF assms(2), of p]
  have so: "priority_sorted (heap s) (takeWhile P xs @ p # dropWhile P xs)"
    and before: "\<forall>q\<in>set (takeWhile P xs). process.priority (heap s q) \<ge> process.priority (heap s p)"
    and after: "\<forall>q\<in>set (dropWhile P xs). process.priority (heap s q) < process.priority (heap s p)"
    unfolding P_def by blast+
  from pri so have so': "priority_sorted (heap s') (takeWhile P xs @ p # dropWhile P xs)"
    by (simp add: priority_sorted_def)
  show ?thesis
    by (intro exI [of _ s'] exI [of _ "takeWhile P xs"] exI [of _ "dropWhile P xs"] conjI
        s' rl so' before after) simp
qed

lemma sched_add_head:
  "sched_state.ready_queue (sched_add_to_ready_queue t n) = Some n
   \<and> sched_process.next (process_table (sched_add_to_ready_queue t n) n) = sched_state.ready_queue t"
  by (simp add: sched_add_to_ready_queue_def Let_def split: option.splits)

text \<open>
  C5, as stated, fails on the queue of scheduler.c: with the processes of slots 2 and
  1 queued (both of priority 10), enqueuing the new process of slot 3, also of priority
  10, puts it at the head, before the two that were queued earlier, not behind them.
\<close>

theorem ready_queue_lifo_counterexample:
  "sched_state.ready_queue (sched_add_to_ready_queue sched_third_created 3) = Some 3
   \<and> sched_process.next (process_table (sched_add_to_ready_queue sched_third_created 3) 3) = Some 2
   \<and> sched_process.next (process_table (sched_add_to_ready_queue sched_third_created 3) 2) = Some 1
   \<and> sched_process.next (process_table (sched_add_to_ready_queue sched_third_created 3) 1) = None
   \<and> sched_process.priority (process_table sched_third_created 3) = 10
   \<and> sched_process.priority (process_table sched_third_created 2) = 10
   \<and> sched_process.priority (process_table sched_third_created 1) = 10
   \<and> sched_state.ready_queue sched_third_created = Some 2"
  by (simp add: sched_add_to_ready_queue_def sched_third_created_def sched_idle_running_def
      slot_def Let_def)

text \<open>
  C5 (amended): the ready queue of process.c is kept in descending priority and, within
  a priority, in the order of arrival, by its enqueue. If following \<^verbatim>\<open>next\<close> from
  \<^verbatim>\<open>ready_queue\<close> visits the structures \<open>xs\<close>, in descending priority, and ends in
  the null pointer, and \<open>p\<close> is not among them, then \<^verbatim>\<open>add_to_ready_queue\<close> of \<open>p\<close>,
  when \<open>p\<close> is ready, and \<^verbatim>\<open>process_create\<close> with \<open>p\<close> as the new structure (of
  priority 20) both end and leave the old members in their order, with \<open>p\<close> behind
  every member of the same or a higher priority and before every member of a lower
  priority, again in descending priority and ending in the null pointer. The ready
  queue of scheduler.c is not ordered by priority: its enqueue puts the process at the
  head, in front of the former head.
\<close>

theorem ready_queue_order:
  assumes "ready_list s xs" and "priority_sorted (heap s) xs" and "p \<notin> set xs"
  shows "(process.state (heap s p) = PROCESS_READY \<longrightarrow>
            (\<exists>s' as bs. add_to_ready_queue s (Some p) = Some s' \<and> xs = as @ bs
               \<and> ready_list s' (as @ p # bs) \<and> priority_sorted (heap s') (as @ p # bs)
               \<and> (\<forall>q\<in>set as. process.priority (heap s q) \<ge> process.priority (heap s p))
               \<and> (\<forall>q\<in>set bs. process.priority (heap s q) < process.priority (heap s p))))
       \<and> (\<exists>r s' as bs. process_create s p = Some (r, s') \<and> xs = as @ bs
               \<and> ready_list s' (as @ p # bs) \<and> priority_sorted (heap s') (as @ p # bs)
               \<and> (\<forall>q\<in>set as. process.priority (heap s q) \<ge> 20)
               \<and> (\<forall>q\<in>set bs. process.priority (heap s q) < 20))
       \<and> sched_state.ready_queue (sched_add_to_ready_queue t n) = Some n
       \<and> sched_process.next (process_table (sched_add_to_ready_queue t n) n)
           = sched_state.ready_queue t"
proof (intro conjI impI)
  assume "process.state (heap s p) = PROCESS_READY"
  with assms show "\<exists>s' as bs. add_to_ready_queue s (Some p) = Some s' \<and> xs = as @ bs
               \<and> ready_list s' (as @ p # bs) \<and> priority_sorted (heap s') (as @ p # bs)
               \<and> (\<forall>q\<in>set as. process.priority (heap s q) \<ge> process.priority (heap s p))
               \<and> (\<forall>q\<in>set bs. process.priority (heap s q) < process.priority (heap s p))"
    by (rule add_to_ready_queue_order)
next
  let ?l = "process_linked s p"
  note l = process_linked_list [OF assms]
  from add_to_ready_queue_order [OF l assms(3) process_linked_fields(3)]
  obtain s' as bs where s': "add_to_ready_queue ?l (Some p) = Some s'"
    and split: "xs = as @ bs"
    and rl: "ready_list s' (as @ p # bs)" and so: "priority_sorted (heap s') (as @ p # bs)"
    and before: "\<forall>q\<in>set as. process.priority (heap ?l q) \<ge> process.priority (heap ?l p)"
    and after: "\<forall>q\<in>set bs. process.priority (heap ?l q) < process.priority (heap ?l p)"
    by (elim exE conjE)
  from split assms(3) have np: "\<forall>q\<in>set as. q \<noteq> p" "\<forall>q\<in>set bs. q \<noteq> p" by auto
  from before np(1) have before': "\<forall>q\<in>set as. process.priority (heap s q) \<ge> 20"
    by (simp add: process_linked_fields)
  from after np(2) have after': "\<forall>q\<in>set bs. process.priority (heap s q) < 20"
    by (simp add: process_linked_fields)
  have run: "process_create s p = Some (sint (process.pid (heap s' p)), s')"
    by (simp add: process_create_def s')
  show "\<exists>r s' as bs. process_create s p = Some (r, s') \<and> xs = as @ bs
               \<and> ready_list s' (as @ p # bs) \<and> priority_sorted (heap s') (as @ p # bs)
               \<and> (\<forall>q\<in>set as. process.priority (heap s q) \<ge> 20)
               \<and> (\<forall>q\<in>set bs. process.priority (heap s q) < 20)"
    by (intro exI [of _ "sint (process.pid (heap s' p))"] exI [of _ s'] exI [of _ as]
        exI [of _ bs] conjI run split rl so before' after')
next
  show "sched_state.ready_queue (sched_add_to_ready_queue t n) = Some n"
    by (simp add: sched_add_head)
  show "sched_process.next (process_table (sched_add_to_ready_queue t n) n)
           = sched_state.ready_queue t"
    by (simp add: sched_add_head)
qed

lemma pm_two_created_list:
  "ready_list pm_two_created [200, 300]"
  "priority_sorted (heap pm_two_created) [200, 300]"
  "process.priority (heap pm_two_created 200) = 20"
  "process.priority (heap pm_two_created 300) = 20"
  by code_simp+

theorem ready_queue_order_witness:
  "ready_list pm_two_created [200, 300]
   \<and> (\<exists>r s'. process_create pm_two_created 400 = Some (r, s')
         \<and> ready_list s' [200, 300, 400]
         \<and> priority_sorted (heap s') [200, 300, 400])"
proof -
  note f = pm_two_created_list
  have fresh: "400 \<notin> set [200, 300 :: nat]" by simp
  note t = ready_queue_order [OF f(1) f(2) fresh, of sched_third_created 3]
  from t have "\<exists>r s' as bs. process_create pm_two_created 400 = Some (r, s')
      \<and> [200, 300] = as @ bs \<and> ready_list s' (as @ 400 # bs)
      \<and> priority_sorted (heap s') (as @ 400 # bs)
      \<and> (\<forall>q\<in>set as. process.priority (heap pm_two_created q) \<ge> 20)
      \<and> (\<forall>q\<in>set bs. process.priority (heap pm_two_created q) < 20)"
    by (elim conjE)
  then obtain r s' as bs where s': "process_create pm_two_created 400 = Some (r, s')"
    and split: "[200, 300] = as @ bs"
    and rl': "ready_list s' (as @ 400 # bs)"
    and so': "priority_sorted (heap s') (as @ 400 # bs)"
    and after: "\<forall>q\<in>set bs. process.priority (heap pm_two_created q) < 20"
    by (elim exE conjE)
  from split have "as = [] \<and> bs = [200, 300] \<or> as = [200] \<and> bs = [300] \<or> as = [200, 300] \<and> bs = []"
    by (auto simp: Cons_eq_append_conv)
  with after f(3) f(4) have "as = [200, 300] \<and> bs = []" by auto
  with s' rl' so' have "\<exists>r s'. process_create pm_two_created 400 = Some (r, s')
         \<and> ready_list s' [200, 300, 400]
         \<and> priority_sorted (heap s') [200, 300, 400]"
    by auto
  with f(1) show ?thesis by blast
qed

text \<open>
  The theorem says nothing about taking a process out of the queue of process.c.
  \<^verbatim>\<open>process_create\<close> links \<^verbatim>\<open>process_list\<close> through the same \<^verbatim>\<open>next\<close> and
  \<^verbatim>\<open>prev\<close> fields as the ready queue, so after three calls the head of the queue has
  a \<^verbatim>\<open>prev\<close> pointer, and \<^verbatim>\<open>remove_from_ready_queue\<close>, which reads it, leaves the
  head in place: after the next \<^verbatim>\<open>process_schedule\<close> the process that runs is still
  the head of the queue, and the other members are no longer reached from it.
\<close>

lemma process_schedule_keeps_head:
  "ready_list pm_three_created [200, 300, 400]"
  "process_schedule pm_three_created \<noteq> None"
  "pm_state.current_process (the (process_schedule pm_three_created)) = Some 200"
  "ready_list (the (process_schedule pm_three_created)) [200]"
  by code_simp+

section \<open>Scheduler: the dispatch decision\<close>

lemma schedule_idle: "schedule sched_idle_running = sched_secret_running"
  by (simp add: schedule_def sched_idle_running_def sched_secret_running_def
      security_check_def slot_def idle_slot_def sched_remove_from_ready_queue_def
      sched_add_to_ready_queue_def context_switch_def Let_def fun_upd_twist)

text \<open>
  C1, as stated, fails: while the SECRET process of slot 2 is running and the idle
  process, classified PENTAGON, heads the ready queue, \<^verbatim>\<open>schedule\<close> changes nothing:
  the current process stays, no context switch is counted.
\<close>

theorem schedule_blocked_counterexample:
  "schedule sched_secret_running = sched_secret_running
   \<and> sched_state.current_process (schedule sched_secret_running) = Some 2
   \<and> sched_state.ready_queue sched_secret_running = Some 0
   \<and> sched_state.context_switches (schedule sched_secret_running)
       = sched_state.context_switches sched_secret_running"
  by (simp add: schedule_def sched_secret_running_def security_check_def slot_def idle_slot_def)

lemma sched_remove_fields:
  "sched_state.current_process (sched_remove_from_ready_queue s n) = sched_state.current_process s"
  "sched_state.context_switches (sched_remove_from_ready_queue s n) = sched_state.context_switches s"
  "sched_process.state (sched_state.process_table (sched_remove_from_ready_queue s n) i)
     = sched_process.state (sched_state.process_table s i)"
  by (auto simp: sched_remove_from_ready_queue_def Let_def split: option.splits prod.splits)

lemma sched_add_fields:
  "sched_state.current_process (sched_add_to_ready_queue s n) = sched_state.current_process s"
  "sched_state.context_switches (sched_add_to_ready_queue s n) = sched_state.context_switches s"
  by (auto simp: sched_add_to_ready_queue_def Let_def split: option.splits)

text \<open>
  C1 (amended): the dispatch of \<^verbatim>\<open>schedule\<close> is gated by the read rule of the
  lattice. With the scheduler initialised, a current process and a process at the head
  of the ready queue: if the classification of the current process is at least that of
  the head (so also when the incoming process is classified strictly below the outgoing
  one), the switch is performed: the head becomes the running current process and the
  context-switch counter goes up by one; if the head is classified strictly above the
  current process, \<^verbatim>\<open>schedule\<close> returns without any change.
\<close>

theorem schedule_gate:
  assumes "sched_state.initialized s" and "sched_state.ready_queue s = Some n"
    and "sched_state.current_process s = Some c"
  shows "(security_rank (sec_level (process_table s c)) \<ge> security_rank (sec_level (process_table s n))
          \<longrightarrow> sched_state.current_process (schedule s) = Some n
              \<and> sched_process.state (process_table (schedule s) n) = PROC_RUNNING
              \<and> context_switches (schedule s) = context_switches s + 1)
       \<and> (security_rank (sec_level (process_table s c)) < security_rank (sec_level (process_table s n))
          \<longrightarrow> schedule s = s)"
  using assms
  by (auto simp: schedule_def security_check_def Let_def context_switch_def
      sched_remove_fields sched_add_fields)

theorem schedule_gate_witness:
  "sched_state.current_process (schedule sched_idle_running) = Some 2
   \<and> sched_process.state (process_table (schedule sched_idle_running) 2) = PROC_RUNNING
   \<and> context_switches (schedule sched_idle_running) = 1
   \<and> schedule sched_secret_running = sched_secret_running"
proof -
  have a: "sched_state.initialized sched_idle_running"
    "sched_state.ready_queue sched_idle_running = Some 2"
    "sched_state.current_process sched_idle_running = Some 0"
    by (simp_all add: sched_idle_running_def)
  have b: "sched_state.initialized sched_secret_running"
    "sched_state.ready_queue sched_secret_running = Some 0"
    "sched_state.current_process sched_secret_running = Some 2"
    by (simp_all add: sched_secret_running_def)
  have ranks: "security_rank (sec_level (process_table sched_idle_running 0)) = 4"
    "security_rank (sec_level (process_table sched_idle_running 2)) = 2"
    "security_rank (sec_level (process_table sched_secret_running 0)) = 4"
    "security_rank (sec_level (process_table sched_secret_running 2)) = 2"
    "context_switches sched_idle_running = 0"
    by (simp_all add: sched_idle_running_def sched_secret_running_def slot_def idle_slot_def)
  show ?thesis
    using schedule_gate [OF a] schedule_gate [OF b] by (simp add: ranks)
qed

section \<open>Buddy allocator: coalescing\<close>

text \<open>Handing the blank pages to the allocator as one block gives \<open>zone_2048\<close>.\<close>

lemma zone_2048_from_free: "buddy_free_pages blank_2048 0 11 = Some zone_2048"
  by code_simp

lemma allocations_return:
  "map_option fst (buddy_alloc_pages zone_2048 ZONE_NORMAL 0) = Some (Some 0)"
  "map_option fst (buddy_alloc_pages (alloc_page zone_2048) ZONE_NORMAL 0) = Some (Some 1)"
  "map_option fst (buddy_alloc_pages (alloc_page (alloc_page zone_2048)) ZONE_NORMAL 0)
     = Some (Some 2)"
  "map_option fst (buddy_alloc_pages (alloc_page (alloc_page (alloc_page zone_2048))) ZONE_NORMAL 0)
     = Some (Some 3)"
  by code_simp+

lemma frees_return:
  "buddy_free_pages four_allocated 1 0 \<noteq> None"
  "buddy_free_pages (free_page 1 four_allocated) 0 0 \<noteq> None"
  "buddy_free_pages (free_page 0 (free_page 1 four_allocated)) 3 0 \<noteq> None"
  "buddy_free_pages (free_page 3 (free_page 0 (free_page 1 four_allocated))) 2 0 \<noteq> None"
  by code_simp+

lemma lists_after:
  "free_lists four_allocated
     [[], [], [4], [8], [16], [32], [64], [128], [256], [512], [1024], []]"
  "free_lists four_freed
     [[], [], [0, 4], [8], [16], [32], [64], [128], [256], [512], [1024], []]"
  "page.ref_count (page_array four_freed ! 4) = 0"
  "page.order (page_array four_freed ! 4) = 0"
  by code_simp+

lemma spec_frees:
  "buddy_free_spec 2048 (buddy_free_spec 2048 (buddy_free_spec 2048 (buddy_free_spec 2048
     [[], [], [4], [8], [16], [32], [64], [128], [256], [512], [1024], []] 1 0) 0 0) 3 0) 2 0
   = [[], [], [], [], [], [], [], [], [], [], [], [0]]"
  by code_simp

text \<open>
  C4 fails on the code, in the specification's own scenario. The four allocations
  return the frames 0, 1, 2 and 3 and leave the blocks at 4, 8, ..., 1024 on the free
  lists of the orders 2, 3, ..., 10. Freeing 1, 0, 3 and 2 then coalesces the four
  pages into the block of order 2 at frame 0 and stops there: the code ends with the
  two blocks 0 and 4 on the free list of order 2. The buddy at frame 4 exists, is free
  and is on the free list of order 2, but \<^verbatim>\<open>buddy_free_pages\<close> reads its order from
  the \<^verbatim>\<open>order\<close> field, which is still 0: the split of \<^verbatim>\<open>buddy_alloc_pages\<close> put
  the block on the list without writing the field. The algorithm as specified, on
  the same free lists, goes on coalescing up to the one block of order 11.
\<close>

theorem buddy_coalescing_scenario:
  "map_option fst (buddy_alloc_pages zone_2048 ZONE_NORMAL 0) = Some (Some 0)
   \<and> map_option fst (buddy_alloc_pages (alloc_page zone_2048) ZONE_NORMAL 0) = Some (Some 1)
   \<and> map_option fst (buddy_alloc_pages (alloc_page (alloc_page zone_2048)) ZONE_NORMAL 0)
       = Some (Some 2)
   \<and> map_option fst
         (buddy_alloc_pages (alloc_page (alloc_page (alloc_page zone_2048))) ZONE_NORMAL 0)
       = Some (Some 3)
   \<and> free_lists four_allocated
         [[], [], [4], [8], [16], [32], [64], [128], [256], [512], [1024], []]
   \<and> buddy_free_pages four_allocated 1 0 \<noteq> None
   \<and> buddy_free_pages (free_page 1 four_allocated) 0 0 \<noteq> None
   \<and> buddy_free_pages (free_page 0 (free_page 1 four_allocated)) 3 0 \<noteq> None
   \<and> buddy_free_pages (free_page 3 (free_page 0 (free_page 1 four_allocated))) 2 0 \<noteq> None
   \<and> free_lists four_freed
         [[], [], [0, 4], [8], [16], [32], [64], [128], [256], [512], [1024], []]
   \<and> page.ref_count (page_array four_freed ! 4) = 0
   \<and> page.order (page_array four_freed ! 4) = 0
   \<and> buddy_free_spec 2048 (buddy_free_spec 2048 (buddy_free_spec 2048 (buddy_free_spec 2048
         [[], [], [4], [8], [16], [32], [64], [128], [256], [512], [1024], []] 1 0) 0 0) 3 0) 2 0
       = [[], [], [], [], [], [], [], [], [], [], [], [0]]"
  by (intro conjI allocations_return frees_return lists_after spec_frees)


end
